theory Spec2Isabelle
  imports Complex_Main "HOL-Library.Sublist"
begin

section \<open>Python strings and bytes\<close>

text \<open>
  A Python \<open>str\<close> is modelled as a \<open>string\<close>: a list of characters, each character a
  code point below 256. Lines read from the port are decoded with
  \<open>decode('ascii', errors='ignore')\<close>, so they only hold code points below 128.
  A \<open>bytes\<close> value is a \<open>string\<close> too, each character one byte.
\<close>

definition ord :: "char \<Rightarrow> nat" where
  "ord c = of_char c"

definition dquote :: char where
  "dquote = CHR 0x22"

definition squote :: char where
  "squote = CHR 0x27"

definition crlf :: string where
  "crlf = [CHR 0x0D, CHR 0x0A]"

text \<open>\<open>sub in s\<close> on strings.\<close>

fun contains :: "string \<Rightarrow> string \<Rightarrow> bool" where
  "contains sub [] = (sub = [])"
| "contains sub (c # cs) = (prefix sub (c # cs) \<or> contains sub cs)"

text \<open>
  \<open>str.isspace\<close> on code points below 128, as \<open>str.strip()\<close> and \<open>str.split()\<close>
  use it: tab, line feed, vertical tab, form feed, carriage return, the four
  separators 0x1C..0x1F and the space.
\<close>

definition str_isspace :: "char \<Rightarrow> bool" where
  "str_isspace c = (let n = ord c in (9 \<le> n \<and> n \<le> 13) \<or> (28 \<le> n \<and> n \<le> 32))"

text \<open>\<open>s.strip()\<close>\<close>

definition strip :: "string \<Rightarrow> string" where
  "strip s = rev (dropWhile str_isspace (rev (dropWhile str_isspace s)))"

text \<open>\<open>s.split()\<close>: the maximal runs of non-whitespace characters.\<close>

fun split_ws_from :: "string \<Rightarrow> string \<Rightarrow> string list" where
  "split_ws_from cur [] = (if cur = [] then [] else [rev cur])"
| "split_ws_from cur (c # cs) =
     (if str_isspace c
      then (if cur = [] then split_ws_from [] cs else rev cur # split_ws_from [] cs)
      else split_ws_from (c # cur) cs)"

definition split_ws :: "string \<Rightarrow> string list" where
  "split_ws s = split_ws_from [] s"

text \<open>
  The leftmost occurrence of a non-empty separator: the text before it and the text
  after it.
\<close>

fun find_sep :: "string \<Rightarrow> string \<Rightarrow> (string \<times> string) option" where
  "find_sep sep [] = None"
| "find_sep sep (c # cs) =
     (if prefix sep (c # cs) then Some ([], drop (length sep) (c # cs))
      else (case find_sep sep cs of
              None \<Rightarrow> None
            | Some (before, rest) \<Rightarrow> Some (c # before, rest)))"

lemma find_sep_shorter:
  "find_sep sep s = Some (before, rest) \<Longrightarrow> sep \<noteq> [] \<Longrightarrow> length rest < length s"
proof (induction s arbitrary: before)
  case Nil
  then show ?case by simp
next
  case (Cons c cs)
  show ?case
  proof (cases "prefix sep (c # cs)")
    case True
    with Cons.prems show ?thesis by (cases sep) auto
  next
    case False
    with Cons.prems obtain b where "find_sep sep cs = Some (b, rest)"
      by (auto split: option.splits)
    with Cons.IH Cons.prems(2) show ?thesis by fastforce
  qed
qed

text \<open>
  \<open>s.split(sep)\<close> for a non-empty separator (Python raises ValueError on an
  empty one).
\<close>

function split_sep :: "string \<Rightarrow> string \<Rightarrow> string list" where
  "split_sep sep s =
     (if sep = [] then []
      else (case find_sep sep s of
              None \<Rightarrow> [s]
            | Some (before, rest) \<Rightarrow> before # split_sep sep rest))"
  by pat_completeness auto
termination
  by (relation "measure (\<lambda>(sep, s). length s)") (auto dest: find_sep_shorter)

declare split_sep.simps [simp del]

datatype exn =
    IndexError
  | ValueError
  | UnicodeDecodeError
  | AttributeError
  | SerialException string

text \<open>\<open>xs[i]\<close> for a non-negative index.\<close>

definition item :: "'a list \<Rightarrow> nat \<Rightarrow> exn + 'a" where
  "item xs i = (if i < length xs then Inr (xs ! i) else Inl IndexError)"

section \<open>Hexadecimal payloads\<close>

definition hexdigits :: string where
  "hexdigits = ''0123456789ABCDEFabcdef''"

text \<open>\<open>all(c in '0123456789ABCDEFabcdef' for c in s)\<close>\<close>

definition all_hex :: "string \<Rightarrow> bool" where
  "all_hex s = list_all (\<lambda>c. c \<in> set hexdigits) s"

definition upper_digit :: "nat \<Rightarrow> char" where
  "upper_digit n = ''0123456789ABCDEF'' ! n"

text \<open>
  \<open>f'{n:02X}'\<close> for \<open>n < 256\<close>: two upper-case digits.
\<close>

definition format_02X :: "nat \<Rightarrow> string" where
  "format_02X n = [upper_digit (n div 16), upper_digit (n mod 16)]"

text \<open>
  The payload placed between the quotes of the transmit command. It is made of
  hexadecimal digits of code points below 128 in both branches, so \<open>cmd.encode()\<close>
  leaves the command as it is.
\<close>

definition hex_message :: "string \<Rightarrow> string" where
  "hex_message m = (if all_hex m then m else concat (map (\<lambda>c. format_02X (ord c)) m))"

definition tx_cmd :: "string \<Rightarrow> string" where
  "tx_cmd m = ''AT+TEST=TXLRPKT,'' @ [dquote] @ hex_message m @ [dquote] @ crlf"

text \<open>
  The value of a hexadecimal digit, as \<open>bytes.fromhex\<close> reads it.
\<close>

definition digit_value :: "char \<Rightarrow> nat option" where
  "digit_value c =
     (let n = ord c in
      if 48 \<le> n \<and> n \<le> 57 then Some (n - 48)
      else if 65 \<le> n \<and> n \<le> 70 then Some (n - 55)
      else if 97 \<le> n \<and> n \<le> 102 then Some (n - 87)
      else None)"

text \<open>The white space \<open>bytes.fromhex\<close> skips between two bytes.\<close>

definition py_isspace :: "char \<Rightarrow> bool" where
  "py_isspace c = (let n = ord c in (9 \<le> n \<and> n \<le> 13) \<or> n = 32)"

text \<open>
  \<open>bytes.fromhex(s)\<close>: two digits a byte, white space allowed between bytes only;
  anything else raises ValueError.
\<close>

fun fromhex :: "string \<Rightarrow> exn + string" where
  "fromhex [] = Inr []"
| "fromhex [c] = (if py_isspace c then Inr [] else Inl ValueError)"
| "fromhex (c # d # ds) =
     (if py_isspace c then fromhex (d # ds)
      else (case (digit_value c, digit_value d) of
              (Some hi, Some lo) \<Rightarrow>
                (case fromhex ds of
                   Inl e \<Rightarrow> Inl e
                 | Inr bs \<Rightarrow> Inr (char_of (hi * 16 + lo) # bs))
            | _ \<Rightarrow> Inl ValueError))"

text \<open>A text of code points below 128 only.\<close>

definition is_ascii :: "string \<Rightarrow> bool" where
  "is_ascii s = list_all (\<lambda>c. ord c < 128) s"

text \<open>\<open>b.decode('ascii')\<close>\<close>

definition decode_ascii :: "string \<Rightarrow> exn + string" where
  "decode_ascii bs = (if list_all (\<lambda>b. ord b < 128) bs then Inr bs else Inl UnicodeDecodeError)"

text \<open>\<open>b.decode('ascii', errors='ignore')\<close>\<close>

definition decode_ascii_ignore :: "string \<Rightarrow> string" where
  "decode_ascii_ignore bs = filter (\<lambda>b. ord b < 128) bs"

text \<open>\<open>bytes.fromhex(h).decode('ascii')\<close>\<close>

definition hex_to_ascii :: "string \<Rightarrow> exn + string" where
  "hex_to_ascii h = (case fromhex h of Inl e \<Rightarrow> Inl e | Inr bs \<Rightarrow> decode_ascii bs)"

section \<open>Events and effects\<close>

text \<open>
  The text of an event is a list of fragments: literal text, the \<open>str(e)\<close> of a caught
  exception, and a formatted temperature value (\<open>None\<close> prints as such). The
  interpreter's rendering of exceptions and floats is left uninterpreted.
\<close>

datatype 'f frag = Txt string | StrExn exn | Fmt "'f option"

datatype 'f event =
    StatusUpdate string "'f frag list"
  | MessageEvent string "'f frag list"
  | ConnectionStatus string bool

text \<open>Everything a session does to the outside, in the order it happens.\<close>

datatype 'f effect =
    Emit "'f event"
  | Write string
  | Sleep real
  | Close
  | ResetInput
  | ResetOutput

section \<open>SerialWorker\<close>

text \<open>
  The fields of \<open>SerialWorker\<close>. \<open>serial\<close> is \<open>None\<close> before the port is opened and
  \<open>Some is_open\<close> afterwards. \<open>effects\<close> is the trace of the session's effects.
\<close>

record 'f worker =
  port :: string
  device_type :: string
  running :: bool
  serial :: "bool option"
  message_to_send :: "string option"
  send_interval :: real
  last_send_time :: real
  effects :: "'f effect list"

definition init :: "string \<Rightarrow> string \<Rightarrow> 'f worker" where
  "init p d =
     \<lparr>port = p, device_type = d, running = False, serial = None, message_to_send = None,
      send_interval = 5, last_send_time = 0, effects = []\<rparr>"

definition emit :: "'f event \<Rightarrow> 'f worker \<Rightarrow> 'f worker" where
  "emit e s = s\<lparr>effects := effects s @ [Emit e]\<rparr>"

definition status_update :: "'f frag list \<Rightarrow> 'f worker \<Rightarrow> 'f worker" where
  "status_update txt s = emit (StatusUpdate (device_type s) txt) s"

definition message_received :: "'f frag list \<Rightarrow> 'f worker \<Rightarrow> 'f worker" where
  "message_received txt s = emit (MessageEvent (device_type s) txt) s"

definition connection_status :: "bool \<Rightarrow> 'f worker \<Rightarrow> 'f worker" where
  "connection_status b s = emit (ConnectionStatus (device_type s) b) s"

definition sleep :: "real \<Rightarrow> 'f worker \<Rightarrow> 'f worker" where
  "sleep d s = s\<lparr>effects := effects s @ [Sleep d]\<rparr>"

text \<open>
  A statement that may raise leaves the exception, if any, and the state reached.
  \<open>and_then\<close> runs the next statement unless the previous one raised.
\<close>

definition and_then ::
  "exn option \<times> 'f worker \<Rightarrow> ('f worker \<Rightarrow> exn option \<times> 'f worker) \<Rightarrow> exn option \<times> 'f worker"
where
  "and_then r f = (case r of (None, s) \<Rightarrow> f s | (Some e, s) \<Rightarrow> (Some e, s))"

text \<open>
  \<open>self.serial.write(data)\<close>: without a handle the attribute access raises; otherwise
  the port decides (\<open>res\<close> is the exception it raises, if any).
\<close>

definition serial_write :: "exn option \<Rightarrow> string \<Rightarrow> 'f worker \<Rightarrow> exn option \<times> 'f worker" where
  "serial_write res data s =
     (case serial s of
        None \<Rightarrow> (Some AttributeError, s)
      | Some _ \<Rightarrow>
          (case res of
             Some e \<Rightarrow> (Some e, s)
           | None \<Rightarrow> (None, s\<lparr>effects := effects s @ [Write data]\<rparr>)))"

definition LORA_PARAMS :: "(string \<times> string) list" where
  "LORA_PARAMS =
     [(''frequency'', ''868''), (''spreading_factor'', ''SF7''), (''bandwidth'', ''125''),
      (''coding_rate'', ''12''), (''power'', ''15''), (''preamble'', ''8''), (''crc'', ''ON'')]"

definition param :: "string \<Rightarrow> string" where
  "param k = (case map_of LORA_PARAMS k of Some v \<Rightarrow> v | None \<Rightarrow> [])"

definition rf_config :: string where
  "rf_config =
     ''AT+TEST=RFCFG,'' @ param ''frequency'' @ '','' @ param ''spreading_factor'' @ '','' @
     param ''bandwidth'' @ '','' @ param ''coding_rate'' @ '','' @ param ''power'' @ '','' @
     param ''preamble'' @ '','' @ param ''crc'' @ crlf"

text \<open>
  What the port does while the session starts: the exception each call raises, if any.
\<close>

record startup =
  open_port :: "exn option"
  mode_write :: "exn option"
  rfcfg_write :: "exn option"
  rx_write :: "exn option"

text \<open>The body of the \<open>try\<close> of \<open>configure_device\<close>.\<close>

definition configure_try :: "startup \<Rightarrow> 'f worker \<Rightarrow> exn option \<times> 'f worker" where
  "configure_try env s =
     and_then (serial_write (mode_write env) (''AT+MODE=TEST'' @ crlf) s) (\<lambda>s.
     and_then (serial_write (rfcfg_write env) rf_config
                 (status_update [Txt ''Set TEST mode''] (sleep (1/2) s))) (\<lambda>s.
     (let s = status_update [Txt ''Configured LoRa parameters''] (sleep (1/2) s) in
      if device_type s = ''Receiver''
      then and_then (serial_write (rx_write env) (''AT+TEST=RXLRPKT'' @ crlf) s) (\<lambda>s.
             (None, status_update [Txt ''Started listening for packets''] (sleep (1/2) s)))
      else (None, s))))"

definition configure_device :: "startup \<Rightarrow> 'f worker \<Rightarrow> bool \<times> 'f worker" where
  "configure_device env s =
     (case configure_try env s of
        (None, s') \<Rightarrow> (True, s')
      | (Some e, s') \<Rightarrow> (False, status_update [Txt ''Configuration error: '', StrExn e] s'))"

definition connect :: "startup \<Rightarrow> 'f worker \<Rightarrow> bool \<times> 'f worker" where
  "connect env s =
     (case open_port env of
        None \<Rightarrow>
          (True, connection_status True
                   (status_update [Txt (''Connected to '' @ port s)] (s\<lparr>serial := Some True\<rparr>)))
      | Some e \<Rightarrow>
          (False, connection_status False
                    (status_update [Txt ''Connection error: '', StrExn e] s)))"

definition disconnect :: "'f worker \<Rightarrow> 'f worker" where
  "disconnect s =
     (if serial s = Some True
      then connection_status False
             (status_update [Txt ''Disconnected'']
                (s\<lparr>serial := Some False, effects := effects s @ [Close]\<rparr>))
      else s)"

definition send_message :: "string \<Rightarrow> 'f worker \<Rightarrow> 'f worker" where
  "send_message message s =
     status_update [Txt (''Queued message for sending: '' @ message)]
       (s\<lparr>message_to_send := Some message\<rparr>)"

subsection \<open>One iteration of the active loop\<close>

text \<open>
  What the port and the clock do during one iteration: the value of \<open>in_waiting\<close>,
  the bytes \<open>readline()\<close> returns, \<open>time.time()\<close>, and whether the write of the
  transmit command raises.
\<close>

record tick =
  in_waiting :: "exn + nat"
  readline :: "exn + string"
  now :: real
  tx_write :: "exn option"

text \<open>\<open>bytes.fromhex(response.split('"')[1]).decode('ascii')\<close>\<close>

definition decode_packet :: "string \<Rightarrow> exn + string" where
  "decode_packet response =
     (case item (split_sep [dquote] response) 1 of
        Inl e \<Rightarrow> Inl e
      | Inr hex_data \<Rightarrow> hex_to_ascii hex_data)"

definition handle_packet :: "string \<Rightarrow> 'f worker \<Rightarrow> 'f worker" where
  "handle_packet response s =
     (case decode_packet response of
        Inr ascii_text \<Rightarrow> message_received [Txt (''Received message: '' @ ascii_text)] s
      | Inl e \<Rightarrow> status_update [Txt ''Failed to decode message: '', StrExn e] s)"

definition receive_part :: "tick \<Rightarrow> 'f worker \<Rightarrow> exn option \<times> 'f worker" where
  "receive_part t s =
     (case serial s of
        None \<Rightarrow> (Some AttributeError, s)
      | Some _ \<Rightarrow>
          (case in_waiting t of
             Inl e \<Rightarrow> (Some e, s)
           | Inr n \<Rightarrow>
               if n \<noteq> 0 then
                 (case readline t of
                    Inl e \<Rightarrow> (Some e, s)
                  | Inr raw \<Rightarrow>
                      (let response = strip (decode_ascii_ignore raw) in
                       if response \<noteq> [] then
                         (let s1 = status_update [Txt (''Received: '' @ response)] s in
                          if device_type s = ''Receiver'' \<and> contains ''+TEST: RX'' response
                          then (None, handle_packet response s1)
                          else (None, s1))
                       else (None, s)))
               else (None, s)))"

definition transmit_part :: "tick \<Rightarrow> 'f worker \<Rightarrow> exn option \<times> 'f worker" where
  "transmit_part t s =
     (if device_type s = ''Transmitter'' then
        (let current_time = now t in
         case message_to_send s of
           None \<Rightarrow> (None, s)
         | Some m \<Rightarrow>
             if m \<noteq> [] \<and> current_time - last_send_time s \<ge> send_interval s then
               and_then (serial_write (tx_write t) (tx_cmd m) s) (\<lambda>s.
                 (None, (message_received [Txt (''Sent message: '' @ m)] s)
                          \<lparr>last_send_time := current_time\<rparr>))
             else (None, s))
      else (None, s))"

text \<open>The body of the \<open>try\<close> inside the loop.\<close>

definition loop_try :: "tick \<Rightarrow> 'f worker \<Rightarrow> exn option \<times> 'f worker" where
  "loop_try t s =
     and_then (receive_part t s) (\<lambda>s.
     and_then (transmit_part t s) (\<lambda>s.
     (None, sleep (1/10) s)))"

definition loop_iteration :: "tick \<Rightarrow> 'f worker \<Rightarrow> 'f worker" where
  "loop_iteration t s =
     (case loop_try t s of
        (None, s') \<Rightarrow> s'
      | (Some e, s') \<Rightarrow> sleep 1 (status_update [Txt ''Error: '', StrExn e] s'))"

text \<open>A run of iterations with no call from outside in between.\<close>

definition loop_iterations :: "tick list \<Rightarrow> 'f worker \<Rightarrow> 'f worker" where
  "loop_iterations ts s = foldl (\<lambda>s t. loop_iteration t s) s ts"

subsection \<open>The thread\<close>

text \<open>
  \<open>stop()\<close> assigns the flag and then waits for the thread; the thread's part of it is
  in \<open>active_loop\<close>.
\<close>

definition stop :: "'f worker \<Rightarrow> 'f worker" where
  "stop s = s\<lparr>running := False\<rparr>"

text \<open>
  What happens between two tests of \<open>while self.running\<close>: an iteration of the loop, or a
  call of the owner (\<open>send_message\<close>, \<open>stop\<close>), which the loop sees at its next test.
  The calls of the owner are interleaved with whole iterations. The clock readings
  (\<open>time.time()\<close>) and the sleeps are real numbers.
\<close>

datatype action = Tick tick | Enqueue string | Stop

fun perform :: "action \<Rightarrow> 'f worker \<Rightarrow> 'f worker" where
  "perform (Tick t) s = loop_iteration t s"
| "perform (Enqueue m) s = send_message m s"
| "perform Stop s = stop s"

text \<open>
  The loop and the clean-up after it. \<open>None\<close>: the loop is still running when the
  observed actions end.
\<close>

fun active_loop :: "action list \<Rightarrow> 'f worker \<Rightarrow> 'f worker option" where
  "active_loop [] s = (if running s then None else Some (disconnect s))"
| "active_loop (a # as) s =
     (if running s then active_loop as (perform a s) else Some (disconnect s))"

definition run :: "startup \<Rightarrow> action list \<Rightarrow> 'f worker \<Rightarrow> 'f worker option" where
  "run env acts s0 =
     (let s = s0\<lparr>running := True\<rparr> in
      case connect env s of
        (False, s1) \<Rightarrow> Some (s1\<lparr>running := False\<rparr>)
      | (True, s1) \<Rightarrow>
          (case configure_device env s1 of
             (False, s2) \<Rightarrow> Some ((disconnect s2)\<lparr>running := False\<rparr>)
           | (True, s2) \<Rightarrow> active_loop acts s2))"

section \<open>Reading the temperature\<close>

text \<open>
  \<open>float(s)\<close> is a parameter \<open>pyfloat\<close> of the model: \<open>None\<close> stands for ValueError.
\<close>

text \<open>
  The \<open>for\<close> loop over the tokens: the first token equal to \<open>TEMP\<close> that is not the last
  one decides.
\<close>

fun scan_parts :: "(string \<Rightarrow> 'f option) \<Rightarrow> string list \<Rightarrow> 'f option \<Rightarrow> exn + 'f option" where
  "scan_parts pyfloat (part # nxt # rest) tv =
     (if part = ''TEMP''
      then (case pyfloat nxt of None \<Rightarrow> Inl ValueError | Some v \<Rightarrow> Inr (Some v))
      else scan_parts pyfloat (nxt # rest) tv)"
| "scan_parts pyfloat parts tv = Inr tv"

text \<open>
  The body of the \<open>try\<close> that extracts the value: the new \<open>temperature_value\<close>, or the
  exception raised.
\<close>

definition parse_temperature :: "(string \<Rightarrow> 'f option) \<Rightarrow> string \<Rightarrow> 'f option \<Rightarrow> exn + 'f option" where
  "parse_temperature pyfloat line tv =
     (if contains ''TEMP,'' line then
        (case item (split_sep ''TEMP,'' line) 1 of
           Inl e \<Rightarrow> Inl e
         | Inr temp_part \<Rightarrow>
             (case pyfloat (strip temp_part) of
                None \<Rightarrow> Inl ValueError
              | Some v \<Rightarrow> Inr (Some v)))
      else if contains '':'' line \<and> contains ''TEMP'' line then
        scan_parts pyfloat (split_ws line) tv
      else Inr tv)"

text \<open>The local variables of the read.\<close>

record 'f reading =
  response :: string
  complete_response :: bool
  temperature_value :: "'f option"

definition quoted :: "string \<Rightarrow> string" where
  "quoted s = [squote] @ s @ [squote]"

definition degrees_C :: string where
  "degrees_C = [CHR 0xB0, CHR ''C'']"

text \<open>The loop body for a non-empty line, up to the sleep.\<close>

definition process_line ::
  "(string \<Rightarrow> 'f option) \<Rightarrow> string \<Rightarrow> 'f reading \<Rightarrow> 'f worker \<Rightarrow> exn option \<times> 'f reading \<times> 'f worker"
where
  "process_line pyfloat line r s =
     (let r1 = r\<lparr>response := response r @ ''RAW> '' @ line @ [CHR 0x0A]\<rparr>;
          s1 = status_update [Txt (''Response line: '' @ quoted line)] s;
          r2 = (if line = ''OK'' \<or> contains ''ERROR'' line
                then r1\<lparr>complete_response := True\<rparr> else r1)
      in if contains ''TEMP'' line then
           (let s2 = status_update [Txt (''Found temperature data: '' @ quoted line)] s1 in
            case parse_temperature pyfloat line (temperature_value r2) of
              Inr tv \<Rightarrow>
                (None, r2\<lparr>temperature_value := tv\<rparr>,
                 status_update [Txt ''Parsed temperature: '', Fmt tv, Txt degrees_C] s2)
            | Inl e \<Rightarrow>
                if e = IndexError \<or> e = ValueError
                then (None, r2,
                      status_update
                        [Txt ''Parse error: '', StrExn e, Txt ('' in '' @ quoted line)] s2)
                else (Some e, r2, s2))
         else (None, r2, s1))"

text \<open>
  What the port and the clock do at one test of the \<open>while\<close> condition and in the
  iteration after it.
\<close>

record poll =
  clock :: real
  bytes_waiting :: "exn + nat"
  line_read :: "exn + string"

text \<open>
  The polling loop. \<open>None\<close>: the loop is still polling when the observations end.
\<close>

fun read_loop ::
  "(string \<Rightarrow> 'f option) \<Rightarrow> real \<Rightarrow> poll list \<Rightarrow> 'f reading \<Rightarrow> 'f worker
   \<Rightarrow> (exn option \<times> 'f reading \<times> 'f worker) option"
where
  "read_loop pyfloat start [] r s = None"
| "read_loop pyfloat start (p # ps) r s =
     (if clock p - start < 5 \<and> \<not> complete_response r then
        (case bytes_waiting p of
           Inl e \<Rightarrow> Some (Some e, r, s)
         | Inr n \<Rightarrow>
             if n \<noteq> 0 then
               (case line_read p of
                  Inl e \<Rightarrow> Some (Some e, r, s)
                | Inr raw \<Rightarrow>
                    (let line = strip (decode_ascii_ignore raw) in
                     if line = [] then read_loop pyfloat start ps r s
                     else (case process_line pyfloat line r s of
                             (Some e, r', s') \<Rightarrow> Some (Some e, r', s')
                           | (None, r', s') \<Rightarrow>
                               read_loop pyfloat start ps r' (sleep (1/10) s'))))
             else read_loop pyfloat start ps r (sleep (1/10) s))
      else Some (None, r, s))"

text \<open>
  What the port and the clock do during one call of \<open>read_temperature\<close>.
\<close>

record temp_env =
  reset_input :: "exn option"
  reset_output :: "exn option"
  temp_write :: "exn option"
  start_time :: real
  polls :: "poll list"

definition serial_reset :: "exn option \<Rightarrow> 'f effect \<Rightarrow> 'f worker \<Rightarrow> exn option \<times> 'f worker" where
  "serial_reset res eff s =
     (case res of Some e \<Rightarrow> (Some e, s) | None \<Rightarrow> (None, s\<lparr>effects := effects s @ [eff]\<rparr>))"

text \<open>The statements of the outer \<open>try\<close> before the loop.\<close>

definition send_query :: "temp_env \<Rightarrow> 'f worker \<Rightarrow> exn option \<times> 'f worker" where
  "send_query env s =
     and_then (serial_reset (reset_input env) ResetInput s) (\<lambda>s.
     and_then (serial_reset (reset_output env) ResetOutput s) (\<lambda>s.
     and_then (serial_write (temp_write env) (''AT+TEST=TEMP'' @ crlf)
                 (status_update [Txt ''Sending temperature read command...''] s)) (\<lambda>s.
     (None, sleep (1/2) s))))"

text \<open>The statements after the loop.\<close>

definition report :: "'f reading \<Rightarrow> 'f worker \<Rightarrow> 'f option \<times> 'f worker" where
  "report r s =
     (let s1 = status_update [Txt (''Complete response:'' @ [CHR 0x0A] @ response r)] s in
      case temperature_value r of
        Some v \<Rightarrow> (Some v, status_update [Txt ''Final temperature: '', Fmt (Some v), Txt degrees_C] s1)
      | None \<Rightarrow>
          if complete_response r
          then (None, status_update [Txt ''Temperature data not found in response''] s1)
          else (None, status_update [Txt ''Timeout waiting for complete response''] s1))"

definition read_temperature ::
  "(string \<Rightarrow> 'f option) \<Rightarrow> temp_env \<Rightarrow> 'f worker \<Rightarrow> ('f option \<times> 'f worker) option"
where
  "read_temperature pyfloat env s =
     (if serial s \<noteq> Some True
      then Some (None, status_update [Txt ''Error: Device not connected''] s)
      else
        (case send_query env s of
           (Some e, s1) \<Rightarrow>
             Some (None, status_update [Txt ''Temperature reading error: '', StrExn e] s1)
         | (None, s1) \<Rightarrow>
             (case read_loop pyfloat (start_time env) (polls env)
                     \<lparr>response = [], complete_response = False, temperature_value = None\<rparr> s1 of
                None \<Rightarrow> None
              | Some (Some e, r, s2) \<Rightarrow>
                  Some (None, status_update [Txt ''Temperature reading error: '', StrExn e] s2)
              | Some (None, r, s2) \<Rightarrow> Some (report r s2))))"

text \<open>
  A reader of plain decimal literals (digits, optionally a point and more digits), to
  run the model on examples; Python's \<open>float\<close> reads many more.
\<close>

fun digits_value :: "string \<Rightarrow> nat \<Rightarrow> nat option" where
  "digits_value [] acc = Some acc"
| "digits_value (c # cs) acc =
     (if 48 \<le> ord c \<and> ord c \<le> 57 then digits_value cs (acc * 10 + (ord c - 48)) else None)"

definition plain_decimal :: "string \<Rightarrow> real option" where
  "plain_decimal s =
     (case find_sep ''.'' s of
        None \<Rightarrow> (if s = [] then None else map_option real (digits_value s 0))
      | Some (a, b) \<Rightarrow>
          (if a = [] \<or> b = [] then None
           else (case (digits_value a 0, digits_value b 0) of
                   (Some x, Some y) \<Rightarrow> Some (real x + real y / 10 ^ length b)
                 | _ \<Rightarrow> None)))"

section \<open>Observations of a trace\<close>

text \<open>The data of a write to the port.\<close>

fun written :: "'f effect \<Rightarrow> string list" where
  "written (Write d) = [d]"
| "written e = []"

text \<open>The writes of a trace, in order.\<close>

definition writes :: "'f effect list \<Rightarrow> string list" where
  "writes es = concat (map written es)"

text \<open>The text of a message event.\<close>

fun message_of :: "'f effect \<Rightarrow> 'f frag list list" where
  "message_of (Emit (MessageEvent d txt)) = [txt]"
| "message_of e = []"

text \<open>The message events of a trace, in order.\<close>

definition messages :: "'f effect list \<Rightarrow> 'f frag list list" where
  "messages es = concat (map message_of es)"

text \<open>
  The receive part of an iteration raises nothing: the port answers
  \<open>in_waiting\<close>, and \<open>readline\<close> when it is called.
\<close>

definition receive_ok :: "tick \<Rightarrow> bool" where
  "receive_ok t =
     (case in_waiting t of
        Inl e \<Rightarrow> False
      | Inr n \<Rightarrow> n = 0 \<or> (case readline t of Inl e \<Rightarrow> False | Inr raw \<Rightarrow> True))"

text \<open>
  The transmit branch of a connected transmitter writes the pending message
  \<open>m\<close> in this iteration: nothing raised before, the message is not empty,
  the interval has elapsed since the last send, and the write succeeds.
\<close>

definition fires :: "string \<Rightarrow> real \<Rightarrow> real \<Rightarrow> tick \<Rightarrow> bool" where
  "fires m interval since t =
     (m \<noteq> [] \<and> receive_ok t \<and> interval \<le> now t - since \<and> tx_write t = None)"

text \<open>
  How often a connected transmitter with the pending message \<open>m\<close> transmits
  over a run of iterations.
\<close>

fun transmissions :: "string \<Rightarrow> real \<Rightarrow> real \<Rightarrow> tick list \<Rightarrow> nat" where
  "transmissions m interval since [] = 0"
| "transmissions m interval since (t # ts) =
     (if fires m interval since t
      then Suc (transmissions m interval (now t) ts)
      else transmissions m interval since ts)"

text \<open>The fields that neither the receive part nor the transmit part assigns.\<close>

definition same_session :: "'f worker \<Rightarrow> 'f worker \<Rightarrow> bool" where
  "same_session s s' =
     (port s' = port s \<and> device_type s' = device_type s \<and> running s' = running s \<and>
      serial s' = serial s \<and> message_to_send s' = message_to_send s \<and>
      send_interval s' = send_interval s)"

section \<open>Example sessions and inputs\<close>

text \<open>A connected transmitter whose last send was at time 100.\<close>

definition example_transmitter :: "real worker" where
  "example_transmitter =
     (init ''/dev/cu.usbserial-10'' ''Transmitter'')
       \<lparr>running := True, serial := Some True, last_send_time := 100\<rparr>"

text \<open>
  An iteration at time \<open>t\<close> with no input waiting and a port that accepts
  writes.
\<close>

definition quiet_tick :: "real \<Rightarrow> tick" where
  "quiet_tick t = \<lparr>in_waiting = Inr 0, readline = Inr [], now = t, tx_write = None\<rparr>"

section \<open>Notions used in the statements\<close>

text \<open>
  One of the writes of the configuration sequence raises (the third one is made by a
  receiver only).
\<close>

definition configure_fails :: "startup \<Rightarrow> string \<Rightarrow> bool" where
  "configure_fails env d =
     (mode_write env \<noteq> None \<or> rfcfg_write env \<noteq> None \<or> (d = ''Receiver'' \<and> rx_write env \<noteq> None))"

text \<open>What \<open>disconnect\<close> does to an open connection.\<close>

definition closing_events :: "string \<Rightarrow> 'f effect list" where
  "closing_events d =
     [Close, Emit (StatusUpdate d [Txt ''Disconnected'']), Emit (ConnectionStatus d False)]"

text \<open>A receiver that has not been started.\<close>

definition example_receiver :: "real worker" where
  "example_receiver = init ''/dev/cu.usbserial-1120'' ''Receiver''"

text \<open>An iteration in which the port raises on \<open>in_waiting\<close>.\<close>

definition failing_tick :: tick where
  "failing_tick =
     \<lparr>in_waiting = Inl (SerialException ''device disconnected''), readline = Inr [],
      now = 200, tx_write = None\<rparr>"

text \<open>
  The event a receiver emits for a packet line: the decoded text, or the failure.
\<close>

definition packet_event :: "string \<Rightarrow> 'f effect" where
  "packet_event line =
     (case decode_packet line of
        Inr ascii_text \<Rightarrow> Emit (MessageEvent ''Receiver'' [Txt (''Received message: '' @ ascii_text)])
      | Inl e \<Rightarrow> Emit (StatusUpdate ''Receiver'' [Txt ''Failed to decode message: '', StrExn e]))"

text \<open>A connected receiver in its loop.\<close>

definition listening_receiver :: "real worker" where
  "listening_receiver =
     (init ''/dev/cu.usbserial-1120'' ''Receiver'')\<lparr>running := True, serial := Some True\<rparr>"

text \<open>
  An iteration in which the bytes \<open>raw\<close> are waiting and read as one line.
\<close>

definition line_tick :: "string \<Rightarrow> tick" where
  "line_tick raw = \<lparr>in_waiting = Inr (length raw), readline = Inr raw, now = 0, tx_write = None\<rparr>"

text \<open>A receive notification carrying \<open>Hello\<close>.\<close>

definition hello_line :: string where
  "hello_line = ''+TEST: RX '' @ [dquote] @ ''48656C6C6F'' @ [dquote]"

text \<open>A receive notification whose payload has nine digits.\<close>

definition odd_line :: string where
  "odd_line = ''+TEST: RX '' @ [dquote] @ ''48656C6C6'' @ [dquote]"

text \<open>The number a line yields: the value its extraction assigns, if any.\<close>

definition line_value :: "(string \<Rightarrow> 'f option) \<Rightarrow> string \<Rightarrow> 'f option" where
  "line_value pyfloat line =
     (if contains ''TEMP'' line
      then (case parse_temperature pyfloat line None of Inr (Some v) \<Rightarrow> Some v | _ \<Rightarrow> None)
      else None)"

text \<open>The last successfully parsed value of a sequence of lines.\<close>

definition last_parsed :: "(string \<Rightarrow> 'f option) \<Rightarrow> string list \<Rightarrow> 'f option" where
  "last_parsed pyfloat ls =
     (case List.map_filter (line_value pyfloat) ls of [] \<Rightarrow> None | v # vs \<Rightarrow> Some (last (v # vs)))"

text \<open>A line that completes the response.\<close>

definition completes :: "string \<Rightarrow> bool" where
  "completes line = (line = ''OK'' \<or> contains ''ERROR'' line)"

text \<open>The port raises nothing at this poll.\<close>

definition poll_ok :: "poll \<Rightarrow> bool" where
  "poll_ok p =
     (case bytes_waiting p of
        Inl e \<Rightarrow> False
      | Inr n \<Rightarrow> n = 0 \<or> (case line_read p of Inl e \<Rightarrow> False | Inr raw \<Rightarrow> True))"

text \<open>
  The lines the read takes in: the non-empty lines that arrive before the deadline, up
  to the first one that completes the response (\<open>done\<close>: the response is
  complete already).
\<close>

fun lines_seen :: "real \<Rightarrow> bool \<Rightarrow> poll list \<Rightarrow> string list" where
  "lines_seen start done [] = []"
| "lines_seen start done (p # ps) =
     (if clock p - start < 5 \<and> \<not> done then
        (case bytes_waiting p of
           Inl e \<Rightarrow> []
         | Inr n \<Rightarrow>
             if n \<noteq> 0 then
               (case line_read p of
                  Inl e \<Rightarrow> []
                | Inr raw \<Rightarrow>
                    (let line = strip (decode_ascii_ignore raw) in
                     if line = [] then lines_seen start done ps
                     else line # lines_seen start (completes line) ps))
             else lines_seen start done ps)
      else [])"

text \<open>
  The value held after a sequence of lines, starting from \<open>tv\<close>.
\<close>

definition latest :: "(string \<Rightarrow> 'f option) \<Rightarrow> 'f option \<Rightarrow> string list \<Rightarrow> 'f option" where
  "latest pyfloat tv ls =
     foldl (\<lambda>tv l. case line_value pyfloat l of Some v \<Rightarrow> Some v | None \<Rightarrow> tv) tv ls"

text \<open>
  A poll at time \<open>t\<close> at which the bytes \<open>raw\<close> are waiting and
  read as one line.
\<close>

definition poll_line :: "real \<Rightarrow> string \<Rightarrow> poll" where
  "poll_line t raw = \<lparr>clock = t, bytes_waiting = Inr (length raw), line_read = Inr raw\<rparr>"

text \<open>A read that starts at time 0 on a port that raises nothing.\<close>

definition temp_exchange :: "poll list \<Rightarrow> temp_env" where
  "temp_exchange ps =
     \<lparr>reset_input = None, reset_output = None, temp_write = None, start_time = 0, polls = ps\<rparr>"

text \<open>A reply with a value, a malformed value and the acknowledgement.\<close>

definition reply_polls :: "poll list" where
  "reply_polls =
     [poll_line 1 (''+TEST: TEMP,23.50'' @ crlf), poll_line 2 (''+TEST: TEMP,2x'' @ crlf),
      poll_line 3 (''OK'' @ crlf), poll_line 6 []]"

text \<open>No reply until the deadline.\<close>

definition silent_polls :: "poll list" where
  "silent_polls = [poll_line 1 [], poll_line 3 [], poll_line 6 []]"

section \<open>The hexadecimal payload\<close>

lemma rf_config_text: "rf_config = ''AT+TEST=RFCFG,868,SF7,125,12,15,8,ON'' @ crlf"
  by (simp add: rf_config_def param_def LORA_PARAMS_def)

lemma below_16_cases: "n < 16 \<Longrightarrow> n \<in> {0,1,2,3,4,5,6,7,8,9,10,11,12,13,14,15::nat}"
  by simp arith

lemma digit_value_upper: "n < 16 \<Longrightarrow> digit_value (upper_digit n) = Some n"
  by (drule below_16_cases) (auto simp: digit_value_def upper_digit_def ord_def)

lemma upper_digit_not_space: "n < 16 \<Longrightarrow> \<not> py_isspace (upper_digit n)"
  by (drule below_16_cases) (auto simp: py_isspace_def upper_digit_def ord_def)

lemma ord_below_256: "ord c < 256"
  by (simp add: ord_def)

lemma char_of_nibbles: "char_of (ord c div 16 * 16 + ord c mod 16) = c"
  by (simp add: ord_def)

lemma fromhex_encoded: "fromhex (concat (map (\<lambda>c. format_02X (ord c)) m)) = Inr m"
proof (induction m)
  case Nil
  then show ?case by simp
next
  case (Cons c m)
  have hi: "ord c div 16 < 16" using ord_below_256 [of c] by simp
  have lo: "ord c mod 16 < 16" by simp
  show ?case
    using Cons.IH digit_value_upper [OF hi] digit_value_upper [OF lo]
      upper_digit_not_space [OF hi] char_of_nibbles [of c]
    by (simp add: format_02X_def)
qed

text \<open>
  C2, as stated, fails: the payload \<open>41\<close> is ASCII text, it is made of hexadecimal digits
  only, so it is sent as it is, and the receiver's decoding of it is \<open>A\<close>.
\<close>

theorem hex_looking_text_not_recovered:
  "is_ascii ''41'' \<and> hex_to_ascii (hex_message ''41'') = Inr ''A'' \<and>
   hex_to_ascii (hex_message ''41'') \<noteq> Inr ''41''"
  by code_simp

text \<open>
  C2 (amended): for every ASCII text payload that has a character other than a
  hexadecimal digit, decoding the encoded payload as hexadecimal byte pairs to ASCII
  gives the payload back; for every payload made of hexadecimal digits only, the
  encoder is the identity.
\<close>

theorem hex_payload_roundtrip:
  "(is_ascii m \<and> \<not> all_hex m \<longrightarrow> hex_to_ascii (hex_message m) = Inr m) \<and>
   (all_hex m \<longrightarrow> hex_message m = m)"
  by (simp add: hex_message_def hex_to_ascii_def fromhex_encoded decode_ascii_def is_ascii_def)

theorem hex_payload_roundtrip_witness:
  "is_ascii ''Hello'' \<and> \<not> all_hex ''Hello'' \<and>
   hex_to_ascii (hex_message ''Hello'') = Inr ''Hello'' \<and>
   all_hex ''DEAD'' \<and> hex_message ''DEAD'' = ''DEAD''"
proof -
  have a: "is_ascii ''Hello''" by (simp add: is_ascii_def ord_def)
  have b: "\<not> all_hex ''Hello''" by (simp add: all_hex_def hexdigits_def)
  have c: "all_hex ''DEAD''" by (simp add: all_hex_def hexdigits_def)
  from a b c hex_payload_roundtrip [of "''Hello''"] hex_payload_roundtrip [of "''DEAD''"]
  show ?thesis by simp
qed

section \<open>Reading the temperature without a connection\<close>

text \<open>
  C9: when the connection handle is absent or not open, \<open>read_temperature\<close> emits the
  status \<open>Error: Device not connected\<close> and returns \<open>None\<close>; nothing is written to the
  port and nothing else of the session changes.
\<close>

theorem read_temperature_not_connected:
  "serial s \<noteq> Some True \<Longrightarrow>
   read_temperature pyfloat env s =
     Some (None, s\<lparr>effects := effects s @
                     [Emit (StatusUpdate (device_type s) [Txt ''Error: Device not connected''])]\<rparr>)"
  by (simp add: read_temperature_def status_update_def emit_def)

theorem read_temperature_not_connected_witness:
  "serial (init ''p'' ''Transmitter'' :: real worker) \<noteq> Some True \<and>
   read_temperature plain_decimal
       \<lparr>reset_input = None, reset_output = None, temp_write = None, start_time = 0, polls = []\<rparr>
       (init ''p'' ''Transmitter'') =
     Some (None, (init ''p'' ''Transmitter'')
             \<lparr>effects := [Emit (StatusUpdate ''Transmitter'' [Txt ''Error: Device not connected''])]\<rparr>)"
proof -
  have a: "serial (init ''p'' ''Transmitter'' :: real worker) \<noteq> Some True"
    by (simp add: init_def)
  show ?thesis
    using a read_temperature_not_connected [OF a, of plain_decimal]
    by (simp add: init_def)
qed

section \<open>The transmit branch\<close>

lemma writes_append [simp]: "writes (a @ b) = writes a @ writes b"
  by (simp add: writes_def)

lemma messages_append [simp]: "messages (a @ b) = messages a @ messages b"
  by (simp add: messages_def)

lemma receive_part_tx:
  assumes "device_type s = ''Transmitter''" "receive_part t s = (x, s')"
  shows "same_session s s' \<and> last_send_time s' = last_send_time s \<and>
         writes (effects s') = writes (effects s) \<and>
         messages (effects s') = messages (effects s) \<and>
         (x = None \<longleftrightarrow> serial s \<noteq> None \<and> receive_ok t)"
  using assms
  by (auto simp: receive_part_def receive_ok_def status_update_def emit_def writes_def messages_def
      same_session_def Let_def split: sum.splits option.splits if_splits)

lemma transmit_part_tx:
  assumes "device_type s = ''Transmitter''" "serial s \<noteq> None" "message_to_send s = Some m"
    "transmit_part t s = (x, s')"
  shows "same_session s s' \<and>
         (if m \<noteq> [] \<and> send_interval s \<le> now t - last_send_time s \<and> tx_write t = None
          then x = None \<and> writes (effects s') = writes (effects s) @ [tx_cmd m] \<and>
               messages (effects s') = messages (effects s) @ [[Txt (''Sent message: '' @ m)]] \<and>
               last_send_time s' = now t
          else writes (effects s') = writes (effects s) \<and>
               messages (effects s') = messages (effects s) \<and>
               last_send_time s' = last_send_time s)"
  using assms
  by (cases "tx_write t")
    (auto simp: transmit_part_def and_then_def serial_write_def message_received_def emit_def
      writes_def messages_def same_session_def Let_def split: option.splits if_splits)

lemma loop_iteration_tx:
  assumes tx: "device_type s = ''Transmitter''" and msg: "message_to_send s = Some m"
  shows "same_session s (loop_iteration t s) \<and>
         (if serial s \<noteq> None \<and> fires m (send_interval s) (last_send_time s) t
          then writes (effects (loop_iteration t s)) = writes (effects s) @ [tx_cmd m] \<and>
               messages (effects (loop_iteration t s)) =
                 messages (effects s) @ [[Txt (''Sent message: '' @ m)]] \<and>
               last_send_time (loop_iteration t s) = now t
          else writes (effects (loop_iteration t s)) = writes (effects s) \<and>
               messages (effects (loop_iteration t s)) = messages (effects s) \<and>
               last_send_time (loop_iteration t s) = last_send_time s)"
proof -
  obtain x1 s1 where r: "receive_part t s = (x1, s1)"
    by (cases "receive_part t s")
  note r1 = receive_part_tx [OF tx r]
  show ?thesis
  proof (cases x1)
    case (Some e)
    have li: "loop_iteration t s = sleep 1 (status_update [Txt ''Error: '', StrExn e] s1)"
      using r Some by (simp add: loop_iteration_def loop_try_def and_then_def)
    show ?thesis
      using r1 Some unfolding li
      by (auto simp: fires_def sleep_def status_update_def emit_def writes_def messages_def
          same_session_def)
  next
    case None
    from r1 None have ser: "serial s \<noteq> None" by simp
    from r1 have tx1: "device_type s1 = ''Transmitter''" and ser1: "serial s1 \<noteq> None"
      and msg1: "message_to_send s1 = Some m"
      using tx ser msg by (simp_all add: same_session_def)
    obtain x2 s2 where q: "transmit_part t s1 = (x2, s2)"
      by (cases "transmit_part t s1")
    note q1 = transmit_part_tx [OF tx1 ser1 msg1 q]
    have ok: "receive_ok t" "serial s \<noteq> None" using r1 None by simp_all
    show ?thesis
    proof (cases x2)
      case None
      have li: "loop_iteration t s = sleep (1/10) s2"
        using r q \<open>x1 = None\<close> None by (simp add: loop_iteration_def loop_try_def and_then_def)
      show ?thesis
        using q1 r1 ok unfolding li
        by (simp add: fires_def sleep_def writes_def messages_def same_session_def
            split: if_splits)
    next
      case (Some e)
      have li: "loop_iteration t s = sleep 1 (status_update [Txt ''Error: '', StrExn e] s2)"
        using r q \<open>x1 = None\<close> Some by (simp add: loop_iteration_def loop_try_def and_then_def)
      show ?thesis
        using q1 r1 ok Some unfolding li
        by (simp add: fires_def sleep_def status_update_def emit_def writes_def messages_def
            same_session_def split: if_splits)
    qed
  qed
qed

lemma loop_iterations_tx:
  assumes "device_type s = ''Transmitter''" "serial s \<noteq> None" "message_to_send s = Some m"
  shows "same_session s (loop_iterations ts s) \<and>
         writes (effects (loop_iterations ts s)) =
           writes (effects s) @
           replicate (transmissions m (send_interval s) (last_send_time s) ts) (tx_cmd m) \<and>
         messages (effects (loop_iterations ts s)) =
           messages (effects s) @
           replicate (transmissions m (send_interval s) (last_send_time s) ts)
             [Txt (''Sent message: '' @ m)]"
  using assms
proof (induction ts arbitrary: s)
  case Nil
  then show ?case by (simp add: loop_iterations_def same_session_def)
next
  case (Cons t ts)
  note step = loop_iteration_tx [OF Cons.prems(1) Cons.prems(3), of t]
  let ?s1 = "loop_iteration t s"
  from step Cons.prems have p1: "device_type ?s1 = ''Transmitter''" "serial ?s1 \<noteq> None"
    "message_to_send ?s1 = Some m"
    by (simp_all add: same_session_def)
  note ih = Cons.IH [OF p1]
  have unf: "loop_iterations (t # ts) s = loop_iterations ts ?s1"
    by (simp add: loop_iterations_def)
  show ?case
  proof (cases "fires m (send_interval s) (last_send_time s) t")
    case True
    with step ih Cons.prems(2) show ?thesis
      unfolding unf by (simp add: same_session_def replicate_append_same [symmetric] del: replicate_append_same)
  next
    case False
    with step ih Cons.prems(2) show ?thesis
      unfolding unf by (simp add: same_session_def)
  qed
qed

lemma loop_iterations_empty_message:
  assumes "device_type s = ''Transmitter''" "message_to_send s = Some []"
  shows "same_session s (loop_iterations ts s) \<and>
         writes (effects (loop_iterations ts s)) = writes (effects s) \<and>
         messages (effects (loop_iterations ts s)) = messages (effects s)"
  using assms
proof (induction ts arbitrary: s)
  case Nil
  then show ?case by (simp add: loop_iterations_def same_session_def)
next
  case (Cons t ts)
  note step = loop_iteration_tx [OF Cons.prems, of t]
  let ?s1 = "loop_iteration t s"
  from step Cons.prems have p1: "device_type ?s1 = ''Transmitter''" "message_to_send ?s1 = Some []"
    by (simp_all add: same_session_def)
  note ih = Cons.IH [OF p1]
  have unf: "loop_iterations (t # ts) s = loop_iterations ts ?s1"
    by (simp add: loop_iterations_def)
  from step ih show ?case
    unfolding unf by (simp add: same_session_def fires_def)
qed

lemma loop_iterations_before_interval:
  assumes "device_type s = ''Transmitter''" "message_to_send s = Some m"
    "list_all (\<lambda>t. now t - last_send_time s < send_interval s) ts"
  shows "same_session s (loop_iterations ts s) \<and>
         last_send_time (loop_iterations ts s) = last_send_time s \<and>
         writes (effects (loop_iterations ts s)) = writes (effects s) \<and>
         messages (effects (loop_iterations ts s)) = messages (effects s)"
  using assms
proof (induction ts arbitrary: s)
  case Nil
  then show ?case by (simp add: loop_iterations_def same_session_def)
next
  case (Cons t ts)
  from Cons.prems(3) have nf: "\<not> fires m (send_interval s) (last_send_time s) t"
    by (simp add: fires_def)
  note step = loop_iteration_tx [OF Cons.prems(1) Cons.prems(2), of t]
  let ?s1 = "loop_iteration t s"
  from step nf Cons.prems have p1: "device_type ?s1 = ''Transmitter''"
    "message_to_send ?s1 = Some m"
    "list_all (\<lambda>t. now t - last_send_time ?s1 < send_interval ?s1) ts"
    by (simp_all add: same_session_def)
  note ih = Cons.IH [OF p1]
  have unf: "loop_iterations (t # ts) s = loop_iterations ts ?s1"
    by (simp add: loop_iterations_def)
  from step nf ih show ?case
    unfolding unf by (simp add: same_session_def)
qed

text \<open>
  C1 (amended): for a connected session in the Transmitter role, when \<open>send_message\<close> is
  called twice and the iterations in between all come before the send interval has
  elapsed since the last send, every message transmitted over the remaining run of the
  loop carries the second payload, the first payload is never transmitted, and the
  second one is transmitted once in every iteration in which the send interval has
  elapsed since the last send (the pending message stays in place).
\<close>

theorem latest_payload_at_every_interval:
  assumes "device_type s = ''Transmitter''" "serial s \<noteq> None"
    "list_all (\<lambda>t. now t - last_send_time s < send_interval s) between"
  shows "writes (effects (loop_iterations ts
            (send_message m2 (loop_iterations between (send_message m1 s))))) =
           writes (effects s) @
           replicate (transmissions m2 (send_interval s) (last_send_time s) ts) (tx_cmd m2) \<and>
         messages (effects (loop_iterations ts
            (send_message m2 (loop_iterations between (send_message m1 s))))) =
           messages (effects s) @
           replicate (transmissions m2 (send_interval s) (last_send_time s) ts)
             [Txt (''Sent message: '' @ m2)] \<and>
         message_to_send (loop_iterations ts
            (send_message m2 (loop_iterations between (send_message m1 s)))) = Some m2"
proof -
  let ?q1 = "send_message m1 s"
  have q1: "device_type ?q1 = ''Transmitter''" "serial ?q1 \<noteq> None" "message_to_send ?q1 = Some m1"
    "send_interval ?q1 = send_interval s" "last_send_time ?q1 = last_send_time s"
    "writes (effects ?q1) = writes (effects s)" "messages (effects ?q1) = messages (effects s)"
    using assms by (simp_all add: send_message_def status_update_def emit_def writes_def messages_def)
  from assms(3) q1 have b: "list_all (\<lambda>t. now t - last_send_time ?q1 < send_interval ?q1) between"
    by simp
  let ?p = "loop_iterations between ?q1"
  from loop_iterations_before_interval [OF q1(1) q1(3) b] q1
  have p: "device_type ?p = ''Transmitter''" "serial ?p \<noteq> None"
    "send_interval ?p = send_interval s" "last_send_time ?p = last_send_time s"
    "writes (effects ?p) = writes (effects s)" "messages (effects ?p) = messages (effects s)"
    by (simp_all add: same_session_def)
  let ?q = "send_message m2 ?p"
  have q: "device_type ?q = ''Transmitter''" "serial ?q \<noteq> None" "message_to_send ?q = Some m2"
    "send_interval ?q = send_interval s" "last_send_time ?q = last_send_time s"
    "writes (effects ?q) = writes (effects s)" "messages (effects ?q) = messages (effects s)"
    using p by (simp_all add: send_message_def status_update_def emit_def writes_def messages_def)
  from loop_iterations_tx [OF q(1) q(2) q(3), of ts] q show ?thesis
    by (simp add: same_session_def)
qed

text \<open>
  C1, as stated, fails: the pending message is not cleared by a transmission. A
  transmitter that last sent at time 100 gets \<open>hi\<close> and, one iteration later, \<open>yo\<close>,
  both before the interval has elapsed; the iterations at times 105 and 110 both
  transmit \<open>yo\<close>.
\<close>

theorem two_enqueues_two_transmissions:
  "writes (effects (loop_iterations [quiet_tick 105, quiet_tick 110]
      (send_message ''yo'' (loop_iterations [quiet_tick 101]
         (send_message ''hi'' example_transmitter))))) =
   [tx_cmd ''yo'', tx_cmd ''yo''] \<and>
   length (writes (effects (loop_iterations [quiet_tick 105, quiet_tick 110]
      (send_message ''yo'' (loop_iterations [quiet_tick 101]
         (send_message ''hi'' example_transmitter)))))) = 2"
  by (simp add: loop_iterations_def loop_iteration_def loop_try_def receive_part_def
      transmit_part_def and_then_def serial_write_def message_received_def status_update_def
      emit_def sleep_def send_message_def example_transmitter_def quiet_tick_def init_def
      writes_def)

theorem latest_payload_at_every_interval_witness:
  "device_type example_transmitter = ''Transmitter'' \<and> serial example_transmitter \<noteq> None \<and>
   list_all (\<lambda>t. now t - last_send_time example_transmitter < send_interval example_transmitter)
     [quiet_tick 101] \<and>
   transmissions ''yo'' 5 100 [quiet_tick 103, quiet_tick 105, quiet_tick 110] = 2 \<and>
   writes (effects (loop_iterations [quiet_tick 103, quiet_tick 105, quiet_tick 110]
      (send_message ''yo'' (loop_iterations [quiet_tick 101]
         (send_message ''hi'' example_transmitter))))) =
   replicate 2 (tx_cmd ''yo'')"
proof -
  have a: "device_type example_transmitter = ''Transmitter''"
    and b: "serial example_transmitter \<noteq> None"
    by (simp_all add: example_transmitter_def init_def)
  have d: "send_interval example_transmitter = 5" "last_send_time example_transmitter = 100"
    "effects example_transmitter = []"
    by (simp_all add: example_transmitter_def init_def)
  have g: "list_all (\<lambda>t. now t - last_send_time example_transmitter
              < send_interval example_transmitter) [quiet_tick 101]"
    by (simp add: d quiet_tick_def)
  have c: "transmissions ''yo'' 5 100 [quiet_tick 103, quiet_tick 105, quiet_tick 110] = 2"
    by (simp add: fires_def receive_ok_def quiet_tick_def)
  from latest_payload_at_every_interval [OF a b g,
      of "[quiet_tick 103, quiet_tick 105, quiet_tick 110]" "''yo''" "''hi''"] a b c d g
  show ?thesis by (simp add: writes_def)
qed

text \<open>
  C10: for a session in the Transmitter role whose pending message is the empty string,
  no run of iterations writes a transmit command or emits a message event, although
  the all-hex test holds of the empty string.
\<close>

theorem empty_message_never_sent:
  assumes "device_type s = ''Transmitter''" "message_to_send s = Some []"
  shows "writes (effects (loop_iterations ts s)) = writes (effects s) \<and>
         messages (effects (loop_iterations ts s)) = messages (effects s) \<and>
         message_to_send (loop_iterations ts s) = Some [] \<and> all_hex []"
  using loop_iterations_empty_message [OF assms, of ts] assms
  by (simp add: same_session_def all_hex_def)

theorem empty_message_never_sent_witness:
  "device_type (send_message [] example_transmitter) = ''Transmitter'' \<and>
   message_to_send (send_message [] example_transmitter) = Some [] \<and>
   writes (effects (loop_iterations [quiet_tick 105, quiet_tick 110]
      (send_message [] example_transmitter))) = [] \<and>
   messages (effects (loop_iterations [quiet_tick 105, quiet_tick 110]
      (send_message [] example_transmitter))) = []"
proof -
  have a: "device_type (send_message [] example_transmitter) = ''Transmitter''"
    and b: "message_to_send (send_message [] example_transmitter) = Some []"
    by (simp_all add: send_message_def status_update_def emit_def example_transmitter_def init_def)
  have c: "writes (effects (send_message [] example_transmitter)) = []"
    "messages (effects (send_message [] example_transmitter)) = []"
    by (simp_all add: send_message_def status_update_def emit_def example_transmitter_def init_def
        writes_def messages_def)
  from empty_message_never_sent [OF a b, of "[quiet_tick 105, quiet_tick 110]"] a b c
  show ?thesis by simp
qed

section \<open>The thread: start, loop and stop\<close>

lemma receive_part_keeps:
  "receive_part t s = (x, s') \<Longrightarrow> same_session s s'"
  by (auto simp: receive_part_def status_update_def emit_def handle_packet_def message_received_def
      same_session_def Let_def split: sum.splits option.splits if_splits)

lemma transmit_part_keeps:
  "transmit_part t s = (x, s') \<Longrightarrow> same_session s s'"
  by (cases "tx_write t")
    (auto simp: transmit_part_def and_then_def serial_write_def message_received_def emit_def
      same_session_def Let_def split: option.splits if_splits)

lemma same_session_trans: "same_session a b \<Longrightarrow> same_session b c \<Longrightarrow> same_session a c"
  by (simp add: same_session_def)

lemma loop_try_keeps:
  assumes "loop_try t s = (x, s')"
  shows "same_session s s'"
proof -
  obtain x1 s1 where r: "receive_part t s = (x1, s1)" by (cases "receive_part t s")
  obtain x2 s2 where q: "transmit_part t s1 = (x2, s2)" by (cases "transmit_part t s1")
  note k1 = receive_part_keeps [OF r] and k2 = transmit_part_keeps [OF q]
  show ?thesis
  proof (cases x1)
    case (Some e)
    with assms r k1 show ?thesis by (simp add: loop_try_def and_then_def)
  next
    case None
    show ?thesis
    proof (cases x2)
      case (Some e)
      with assms r q None same_session_trans [OF k1 k2] show ?thesis
        by (auto simp add: loop_try_def and_then_def)
    next
      case n2: None
      with assms r q None same_session_trans [OF k1 k2] show ?thesis
        by (auto simp add: loop_try_def and_then_def sleep_def same_session_def)
    qed
  qed
qed

lemma loop_iteration_keeps: "same_session s (loop_iteration t s)"
proof -
  obtain x s' where r: "loop_try t s = (x, s')" by (cases "loop_try t s")
  from loop_try_keeps [OF r] r show ?thesis
    by (cases x) (auto simp: loop_iteration_def sleep_def status_update_def emit_def same_session_def)
qed

lemma perform_keeps:
  "a \<noteq> Stop \<Longrightarrow> running (perform a s) = running s"
  "serial (perform a s) = serial s"
  "device_type (perform a s) = device_type s"
  using loop_iteration_keeps [of s]
  by (cases a; simp add: same_session_def send_message_def status_update_def emit_def stop_def)+

lemma disconnect_open:
  "serial s = Some True \<Longrightarrow>
   serial (disconnect s) = Some False \<and> running (disconnect s) = running s \<and>
   effects (disconnect s) = effects s @ closing_events (device_type s)"
  by (simp add: disconnect_def connection_status_def status_update_def emit_def closing_events_def)

lemma active_loop_without_stop:
  "running s \<Longrightarrow> Stop \<notin> set acts \<Longrightarrow> active_loop acts s = None"
proof (induction acts arbitrary: s)
  case Nil
  then show ?case by simp
next
  case (Cons a acts)
  then have "a \<noteq> Stop" by auto
  with Cons show ?case by (simp add: perform_keeps)
qed

lemma active_loop_with_stop:
  "serial s = Some True \<Longrightarrow> device_type s = d \<Longrightarrow> Stop \<in> set acts \<Longrightarrow>
   \<exists>s'. active_loop acts s = Some s' \<and> \<not> running s' \<and> serial s' = Some False \<and>
        suffix (closing_events d) (effects s')"
proof (induction acts arbitrary: s)
  case Nil
  then show ?case by simp
next
  case (Cons a acts)
  show ?case
  proof (cases "running s")
    case False
    with Cons.prems disconnect_open [of s] show ?thesis by (simp add: suffix_def)
  next
    case True
    show ?thesis
    proof (cases "a = Stop")
      case stop: True
      have "active_loop (a # acts) s = Some (disconnect (stop s))"
        using True stop by (cases acts) (simp_all add: stop_def)
      moreover have "serial (stop s) = Some True" "device_type (stop s) = d" "\<not> running (stop s)"
        using Cons.prems by (simp_all add: stop_def)
      ultimately show ?thesis
        using disconnect_open [of "stop s"] by (simp add: suffix_def)
    next
      case False
      with Cons.prems have "Stop \<in> set acts" by auto
      with Cons.IH [of "perform a s"] Cons.prems True show ?thesis
        by (simp add: perform_keeps)
    qed
  qed
qed

lemma configure_try_result:
  assumes "serial s = Some True" "configure_try env s = (x, s')"
  shows "same_session s s' \<and> (x = None \<longleftrightarrow> \<not> configure_fails env (device_type s))"
proof (cases "mode_write env")
  case (Some e)
  with assms show ?thesis
    by (auto simp: configure_try_def and_then_def serial_write_def same_session_def
        configure_fails_def)
next
  case m: None
  show ?thesis
  proof (cases "rfcfg_write env")
    case (Some e)
    with m assms show ?thesis
      by (auto simp: configure_try_def and_then_def serial_write_def status_update_def emit_def
          sleep_def same_session_def configure_fails_def)
  next
    case r: None
    show ?thesis
    proof (cases "rx_write env")
      case (Some e)
      with m r assms show ?thesis
        by (auto simp: configure_try_def and_then_def serial_write_def status_update_def emit_def
            sleep_def same_session_def configure_fails_def Let_def split: if_splits)
          metis
    next
      case None
      with m r assms show ?thesis
        by (auto simp: configure_try_def and_then_def serial_write_def status_update_def emit_def
            sleep_def same_session_def configure_fails_def Let_def split: if_splits)
    qed
  qed
qed

lemma configure_device_result:
  assumes "serial s = Some True" "configure_device env s = (ok, s')"
  shows "same_session s s' \<and> (ok \<longleftrightarrow> \<not> configure_fails env (device_type s)) \<and>
         (\<not> ok \<longrightarrow> (\<exists>e. suffix [Emit (StatusUpdate (device_type s)
                                  [Txt ''Configuration error: '', StrExn e])] (effects s')))"
proof -
  obtain x s1 where r: "configure_try env s = (x, s1)" by (cases "configure_try env s")
  note r1 = configure_try_result [OF assms(1) r]
  show ?thesis
  proof (cases x)
    case None
    with r r1 assms(2) show ?thesis by (auto simp: configure_device_def)
  next
    case (Some e)
    with r r1 assms(2) show ?thesis
      by (auto simp: configure_device_def status_update_def emit_def same_session_def suffix_def)
  qed
qed

lemma connect_opens:
  "open_port env = None \<Longrightarrow>
   fst (connect env s) \<and> serial (snd (connect env s)) = Some True \<and>
   device_type (snd (connect env s)) = device_type s \<and>
   running (snd (connect env s)) = running s"
  by (simp add: connect_def connection_status_def status_update_def emit_def)

text \<open>
  C7: when the port has been opened and a write of the configuration sequence (mode-set,
  RF-config, or receive-enable for a receiver) raises, \<open>run\<close> returns without entering
  the loop, whatever the later actions are: the status \<open>Configuration error\<close> is emitted,
  then the connection is closed, and the flag is false.
\<close>

theorem configuration_failure_aborts:
  assumes "open_port env = None" "configure_fails env (device_type s0)"
  shows "\<exists>e s'. run env acts s0 = Some s' \<and> run env [] s0 = Some s' \<and> \<not> running s' \<and>
           serial s' = Some False \<and>
           suffix (Emit (StatusUpdate (device_type s0) [Txt ''Configuration error: '', StrExn e])
                   # closing_events (device_type s0)) (effects s')"
proof -
  let ?s = "s0\<lparr>running := True\<rparr>"
  obtain c s1 where c: "connect env ?s = (c, s1)" by (cases "connect env ?s")
  with connect_opens [OF assms(1), of ?s]
  have c1: "c" "serial s1 = Some True" "device_type s1 = device_type s0" by simp_all
  obtain ok s2 where k: "configure_device env s1 = (ok, s2)" by (cases "configure_device env s1")
  from configure_device_result [OF c1(2) k] assms(2) c1(2) c1(3)
  have k1: "\<not> ok" "serial s2 = Some True" "device_type s2 = device_type s0"
    and "\<exists>e. suffix [Emit (StatusUpdate (device_type s0)
                 [Txt ''Configuration error: '', StrExn e])] (effects s2)"
    by (simp_all add: same_session_def)
  then obtain e pre where e: "effects s2 = pre @ [Emit (StatusUpdate (device_type s0)
                 [Txt ''Configuration error: '', StrExn e])]"
    by (auto simp: suffix_def)
  have r: "run env as s0 = Some ((disconnect s2)\<lparr>running := False\<rparr>)" for as
    using c c1(1) k k1(1) by (simp add: run_def)
  from disconnect_open [OF k1(2)] e k1(3)
  have "suffix (Emit (StatusUpdate (device_type s0) [Txt ''Configuration error: '', StrExn e])
                   # closing_events (device_type s0)) (effects ((disconnect s2)\<lparr>running := False\<rparr>))"
    by (simp add: suffix_def)
  with r disconnect_open [OF k1(2)] show ?thesis by auto
qed

theorem configuration_failure_aborts_witness:
  "configure_fails
     \<lparr>open_port = None, mode_write = None, rfcfg_write = None,
      rx_write = Some (SerialException ''write failed'')\<rparr> (device_type example_receiver) \<and>
   (\<exists>e s'. run \<lparr>open_port = None, mode_write = None, rfcfg_write = None,
                rx_write = Some (SerialException ''write failed'')\<rparr>
              [Tick (quiet_tick 1)] example_receiver = Some s' \<and> \<not> running s' \<and>
            serial s' = Some False \<and>
            suffix (Emit (StatusUpdate ''Receiver'' [Txt ''Configuration error: '', StrExn e])
                    # closing_events ''Receiver'') (effects s'))"
proof -
  let ?env = "\<lparr>open_port = None, mode_write = None, rfcfg_write = None,
      rx_write = Some (SerialException ''write failed'')\<rparr>"
  have a: "open_port ?env = None" by simp
  have b: "configure_fails ?env (device_type example_receiver)"
    by (simp add: configure_fails_def example_receiver_def init_def)
  have d: "device_type example_receiver = ''Receiver''"
    by (simp add: example_receiver_def init_def)
  from configuration_failure_aborts [OF a b, of "[Tick (quiet_tick 1)]"] b d
  show ?thesis by auto
qed

text \<open>
  C6: \<open>stop\<close> sets the flag to false and changes nothing of a session that is not
  running; the loop ends at the first stop and the thread then disconnects; for a session
  that was started and configured, the thread ends with the connection closed and the
  events of the disconnection, \<open>ConnectionStatus(false)\<close> last.
\<close>

theorem stop_ends_the_loop:
  "running (stop s) = False \<and>
   (\<not> running s \<longrightarrow> stop s = s) \<and>
   active_loop (Stop # acts) s = Some (disconnect (stop s)) \<and>
   (open_port env = None \<and> \<not> configure_fails env (device_type w) \<and> Stop \<in> set acts \<longrightarrow>
      (\<exists>s'. run env acts w = Some s' \<and> \<not> running s' \<and> serial s' = Some False \<and>
            suffix (closing_events (device_type w)) (effects s')))"
proof -
  have a: "running (stop s) = False" by (simp add: stop_def)
  have b: "\<not> running s \<longrightarrow> stop s = s" by (cases s) (simp add: stop_def)
  have c: "active_loop (Stop # acts) s = Some (disconnect (stop s))"
  proof (cases "running s")
    case True
    then show ?thesis by (cases acts) (simp_all add: stop_def)
  next
    case False
    with b have "stop s = s" by simp
    with False show ?thesis by simp
  qed
  have d: "\<exists>s'. run env acts w = Some s' \<and> \<not> running s' \<and> serial s' = Some False \<and>
            suffix (closing_events (device_type w)) (effects s')"
    if h: "open_port env = None" "\<not> configure_fails env (device_type w)" "Stop \<in> set acts"
  proof -
    let ?s = "w\<lparr>running := True\<rparr>"
    obtain cn s1 where cn: "connect env ?s = (cn, s1)" by (cases "connect env ?s")
    with connect_opens [OF h(1), of ?s]
    have c1: "cn" "serial s1 = Some True" "device_type s1 = device_type w" by simp_all
    obtain ok s2 where k: "configure_device env s1 = (ok, s2)"
      by (cases "configure_device env s1")
    from configure_device_result [OF c1(2) k] h(2) c1(2) c1(3)
    have k1: "ok" "serial s2 = Some True" "device_type s2 = device_type w"
      by (simp_all add: same_session_def)
    have r: "run env acts w = active_loop acts s2"
      using cn c1(1) k k1(1) by (simp add: run_def)
    from active_loop_with_stop [OF k1(2) k1(3) h(3)] r show ?thesis by simp
  qed
  from a b c d show ?thesis by blast
qed

theorem stop_ends_the_loop_witness:
  "\<not> running example_receiver \<and> stop example_receiver = example_receiver \<and>
   (\<exists>s'. run \<lparr>open_port = None, mode_write = None, rfcfg_write = None, rx_write = None\<rparr>
            [Tick (quiet_tick 1), Stop] example_receiver = Some s' \<and> \<not> running s' \<and>
          serial s' = Some False \<and> suffix (closing_events ''Receiver'') (effects s'))"
proof -
  let ?env = "\<lparr>open_port = None, mode_write = None, rfcfg_write = None, rx_write = None\<rparr>"
  have a: "\<not> running example_receiver" by (simp add: example_receiver_def init_def)
  have d: "device_type example_receiver = ''Receiver''"
    by (simp add: example_receiver_def init_def)
  have h: "open_port ?env = None \<and> \<not> configure_fails ?env (device_type example_receiver) \<and>
           Stop \<in> set [Tick (quiet_tick 1), Stop]"
    by (simp add: configure_fails_def)
  from stop_ends_the_loop [where s = example_receiver and env = ?env and w = example_receiver
      and acts = "[Tick (quiet_tick 1), Stop]"] a d h
  show ?thesis by simp
qed

lemma loop_try_write_raises:
  assumes "receive_part t s = (None, s1)" "device_type s = ''Transmitter''"
    "message_to_send s = Some m" "m \<noteq> []" "send_interval s \<le> now t - last_send_time s"
    "tx_write t = Some e"
  shows "loop_try t s = (Some e, s1)"
proof -
  from receive_part_tx [OF assms(2) assms(1)] assms
  have "device_type s1 = ''Transmitter''" "message_to_send s1 = Some m" "serial s1 \<noteq> None"
    "send_interval s1 = send_interval s" "last_send_time s1 = last_send_time s"
    by (simp_all add: same_session_def)
  with assms show ?thesis
    by (auto simp: loop_try_def and_then_def transmit_part_def serial_write_def)
qed

text \<open>
  C8: an exception raised inside an iteration (by \<open>in_waiting\<close>, \<open>readline\<close> or the
  write of the transmit command) makes the iteration emit the status \<open>Error: ...\<close> and
  sleep 1; no iteration changes the flag, the loop goes on with the next action, and
  without a stop it never ends.
\<close>

theorem exceptions_do_not_end_the_loop:
  "(loop_try t s = (Some e, s1) \<longrightarrow>
      effects (loop_iteration t s) =
        effects s1 @ [Emit (StatusUpdate (device_type s) [Txt ''Error: '', StrExn e]), Sleep 1]) \<and>
   (serial s \<noteq> None \<and> in_waiting t = Inl e \<longrightarrow> loop_try t s = (Some e, s)) \<and>
   (serial s \<noteq> None \<and> in_waiting t = Inr n \<and> n \<noteq> 0 \<and> readline t = Inl e \<longrightarrow>
      loop_try t s = (Some e, s)) \<and>
   (receive_part t s = (None, s1) \<and> device_type s = ''Transmitter'' \<and>
    message_to_send s = Some m \<and> m \<noteq> [] \<and> send_interval s \<le> now t - last_send_time s \<and>
    tx_write t = Some e \<longrightarrow> loop_try t s = (Some e, s1)) \<and>
   running (loop_iteration t s) = running s \<and>
   (running s \<longrightarrow> active_loop (Tick t # acts) s = active_loop acts (loop_iteration t s)) \<and>
   (running s \<and> Stop \<notin> set acts \<longrightarrow> active_loop acts s = None)"
proof -
  have a: "effects (loop_iteration t s) =
        effects s1 @ [Emit (StatusUpdate (device_type s) [Txt ''Error: '', StrExn e]), Sleep 1]"
    if h: "loop_try t s = (Some e, s1)"
    using h loop_try_keeps [OF h]
    by (simp add: loop_iteration_def sleep_def status_update_def emit_def same_session_def)
  have b: "loop_try t s = (Some e, s)" if "serial s \<noteq> None \<and> in_waiting t = Inl e"
    using that by (auto simp: loop_try_def and_then_def receive_part_def)
  have c: "loop_try t s = (Some e, s)"
    if "serial s \<noteq> None \<and> in_waiting t = Inr n \<and> n \<noteq> 0 \<and> readline t = Inl e"
    using that by (auto simp: loop_try_def and_then_def receive_part_def)
  have d: "running (loop_iteration t s) = running s"
    using loop_iteration_keeps [of s t] by (simp add: same_session_def)
  from a b c d loop_try_write_raises [of t s s1 m e] active_loop_without_stop [of s acts]
  show ?thesis by auto
qed

theorem exceptions_do_not_end_the_loop_witness:
  "loop_try failing_tick example_transmitter =
     (Some (SerialException ''device disconnected''), example_transmitter) \<and>
   effects (loop_iteration failing_tick example_transmitter) =
     [Emit (StatusUpdate ''Transmitter''
              [Txt ''Error: '', StrExn (SerialException ''device disconnected'')]), Sleep 1] \<and>
   running (loop_iteration failing_tick example_transmitter) \<and>
   active_loop [Tick failing_tick, Tick failing_tick] example_transmitter = None"
proof -
  have s: "serial example_transmitter \<noteq> None \<and>
           in_waiting failing_tick = Inl (SerialException ''device disconnected'')"
    and r: "running example_transmitter"
    and d: "device_type example_transmitter = ''Transmitter''"
    and e: "effects example_transmitter = []"
    and n: "Stop \<notin> set [Tick failing_tick, Tick failing_tick]"
    by (simp_all add: example_transmitter_def init_def failing_tick_def)
  from exceptions_do_not_end_the_loop [where t = failing_tick and s = example_transmitter
      and e = "SerialException ''device disconnected''" and ?s1.0 = example_transmitter
      and acts = "[Tick failing_tick, Tick failing_tick]"] s r d e n
  show ?thesis by (simp del: active_loop.simps)
qed

section \<open>Splitting lines and decoding packets\<close>

lemma contains_iff_sublist: "contains sub s \<longleftrightarrow> sublist sub s"
  by (induction s) (simp_all add: sublist_Cons_right)

lemma contains_single: "contains [c] s \<longleftrightarrow> c \<in> set s"
  by (induction s) auto

lemma find_sep_none: "\<not> contains sep s \<Longrightarrow> find_sep sep s = None"
  by (induction s) auto

lemma prefix_shortened:
  assumes "prefix sep (xs @ ys)" "length sep \<le> length xs"
  shows "prefix sep xs"
  using assms prefix_length_prefix [of sep "xs @ ys" xs] by simp

lemma find_sep_first:
  assumes "sep \<noteq> []" "\<not> contains sep (pre @ butlast sep)"
  shows "find_sep sep (pre @ sep @ rest) = Some (pre, rest)"
  using assms(2)
proof (induction pre)
  case Nil
  from assms(1) obtain x xs where "sep = x # xs" by (cases sep) auto
  then show ?case by simp
next
  case (Cons c pre)
  from Cons.prems have np: "\<not> prefix sep (c # pre @ butlast sep)"
    and nc: "\<not> contains sep (pre @ butlast sep)"
    by simp_all
  have "\<not> prefix sep (c # pre @ sep @ rest)"
  proof
    assume p: "prefix sep (c # pre @ sep @ rest)"
    have "c # pre @ sep @ rest = (c # pre @ butlast sep) @ (last sep # rest)"
      using assms(1) by simp
    with p have "prefix sep ((c # pre @ butlast sep) @ (last sep # rest))" by simp
    moreover have "length sep \<le> length (c # pre @ butlast sep)"
      using assms(1) by (cases sep) auto
    ultimately have "prefix sep (c # pre @ butlast sep)" by (rule prefix_shortened)
    with np show False by simp
  qed
  with Cons.IH [OF nc] show ?case by simp
qed

lemma split_sep_two:
  assumes "sep \<noteq> []" "\<not> contains sep (pre @ butlast sep)" "\<not> contains sep rest"
  shows "split_sep sep (pre @ sep @ rest) = [pre, rest]"
  using assms find_sep_first [OF assms(1) assms(2), of rest] find_sep_none [OF assms(3)]
  by (simp add: split_sep.simps [of sep "pre @ sep @ rest"] split_sep.simps [of sep rest])

lemma split_sep_second:
  assumes "sep \<noteq> []" "\<not> contains sep (pre @ butlast sep)" "\<not> contains sep (mid @ butlast sep)"
  shows "item (split_sep sep (pre @ sep @ mid @ sep @ rest)) 1 = Inr mid"
  using assms find_sep_first [OF assms(1) assms(2), of "mid @ sep @ rest"]
    find_sep_first [OF assms(1) assms(3), of rest]
  by (simp add: split_sep.simps [of sep "pre @ sep @ mid @ sep @ rest"]
      split_sep.simps [of sep "mid @ sep @ rest"] item_def)

lemma split_sep_absent: "sep \<noteq> [] \<Longrightarrow> \<not> contains sep s \<Longrightarrow> split_sep sep s = [s]"
  by (simp add: split_sep.simps [of sep s] find_sep_none)

lemma hex_digit_facts:
  "c \<in> set hexdigits \<Longrightarrow> \<not> py_isspace c \<and> digit_value c \<noteq> None"
  by (auto simp: hexdigits_def py_isspace_def digit_value_def ord_def)

lemma fromhex_odd: "all_hex p \<Longrightarrow> odd (length p) \<Longrightarrow> fromhex p = Inl ValueError"
proof (induction p rule: fromhex.induct)
  case 1
  then show ?case by simp
next
  case (2 c)
  then show ?case using hex_digit_facts [of c] by (simp add: all_hex_def)
next
  case (3 c d ds)
  from "3.prems" have h: "c \<in> set hexdigits" "d \<in> set hexdigits" "all_hex ds" "odd (length ds)"
    by (simp_all add: all_hex_def)
  from hex_digit_facts [OF h(1)] hex_digit_facts [OF h(2)]
  obtain hi lo where v: "\<not> py_isspace c" "digit_value c = Some hi" "digit_value d = Some lo"
    by auto
  from "3.IH"(2) [OF v(1) refl v(2) v(3) h(3) h(4)] v show ?case by simp
qed

lemma decode_packet_quoted:
  assumes "dquote \<notin> set a" "dquote \<notin> set p"
  shows "decode_packet (a @ dquote # p @ dquote # b) = hex_to_ascii p"
  using split_sep_second [of "[dquote]" a p b] assms
  by (simp add: decode_packet_def contains_single)

lemma decode_packet_one_quote:
  assumes "dquote \<notin> set a" "dquote \<notin> set p"
  shows "decode_packet (a @ dquote # p) = hex_to_ascii p"
  using split_sep_two [of "[dquote]" a p] assms
  by (simp add: decode_packet_def contains_single item_def)

lemma decode_packet_no_quote:
  assumes "dquote \<notin> set line"
  shows "decode_packet line = Inl IndexError"
  using split_sep_absent [of "[dquote]" line] assms
  by (simp add: decode_packet_def contains_single item_def)

lemma receiver_iteration:
  assumes "device_type s = ''Receiver''" "serial s \<noteq> None" "in_waiting t = Inr n" "n \<noteq> 0"
    "readline t = Inr raw" "line = strip (decode_ascii_ignore raw)"
    "contains ''+TEST: RX'' line"
  shows "loop_iteration t s =
           s\<lparr>effects := effects s @
               [Emit (StatusUpdate ''Receiver'' [Txt (''Received: '' @ line)]),
                packet_event line, Sleep (1/10)]\<rparr>"
proof -
  from assms(7) have ne: "line \<noteq> []" by (cases line) auto
  have r: "receive_part t s =
             (None, handle_packet line (status_update [Txt (''Received: '' @ line)] s))"
    using assms ne by (auto simp: receive_part_def Let_def status_update_def emit_def)
  let ?s1 = "handle_packet line (status_update [Txt (''Received: '' @ line)] s)"
  have d: "device_type ?s1 = ''Receiver''"
    using assms(1)
    by (simp add: handle_packet_def status_update_def message_received_def emit_def
        split: sum.splits)
  have q: "transmit_part t ?s1 = (None, ?s1)"
    using d by (simp add: transmit_part_def)
  have "loop_iteration t s = sleep (1/10) ?s1"
    using r q by (simp add: loop_iteration_def loop_try_def and_then_def)
  then show ?thesis
    using assms(1)
    by (simp add: sleep_def handle_packet_def packet_event_def status_update_def
        message_received_def emit_def split: sum.splits)
qed

text \<open>
  C5: when a connected receiver reads a line that contains \<open>+TEST: RX\<close>, the iteration
  emits the status \<open>Received: ...\<close>, then either the message event with the decoded text
  or, when the decoding raises, the status \<open>Failed to decode message\<close> and no message
  event, and nothing else of the session changes. The text decoded is the one between
  the first two quotes; a payload of an odd number of hexadecimal digits raises
  ValueError, a line without quotes IndexError.
\<close>

theorem receiver_decodes_packet:
  assumes "device_type s = ''Receiver''" "serial s \<noteq> None" "in_waiting t = Inr n" "n \<noteq> 0"
    "readline t = Inr raw" "line = strip (decode_ascii_ignore raw)"
    "contains ''+TEST: RX'' line"
  shows "loop_iteration t s =
           s\<lparr>effects := effects s @
               [Emit (StatusUpdate ''Receiver'' [Txt (''Received: '' @ line)]),
                (case decode_packet line of
                   Inr ascii_text \<Rightarrow>
                     Emit (MessageEvent ''Receiver'' [Txt (''Received message: '' @ ascii_text)])
                 | Inl e \<Rightarrow>
                     Emit (StatusUpdate ''Receiver'' [Txt ''Failed to decode message: '', StrExn e])),
                Sleep (1/10)]\<rparr> \<and>
         (\<forall>a p b. line = a @ dquote # p @ dquote # b \<and> dquote \<notin> set a \<and> dquote \<notin> set p \<longrightarrow>
            decode_packet line = hex_to_ascii p \<and>
            (all_hex p \<and> odd (length p) \<longrightarrow> decode_packet line = Inl ValueError)) \<and>
         (dquote \<notin> set line \<longrightarrow> decode_packet line = Inl IndexError)"
  using receiver_iteration [OF assms] decode_packet_quoted decode_packet_no_quote [of line]
    fromhex_odd
  by (auto simp: packet_event_def hex_to_ascii_def)

theorem receiver_decodes_packet_witness:
  "effects (loop_iteration (line_tick (hello_line @ crlf)) listening_receiver) =
     [Emit (StatusUpdate ''Receiver'' [Txt (''Received: '' @ hello_line)]),
      Emit (MessageEvent ''Receiver'' [Txt ''Received message: Hello'']), Sleep (1/10)] \<and>
   effects (loop_iteration (line_tick (odd_line @ crlf)) listening_receiver) =
     [Emit (StatusUpdate ''Receiver'' [Txt (''Received: '' @ odd_line)]),
      Emit (StatusUpdate ''Receiver'' [Txt ''Failed to decode message: '', StrExn ValueError]),
      Sleep (1/10)]"
proof -
  have s: "device_type listening_receiver = ''Receiver''" "serial listening_receiver \<noteq> None"
    "effects listening_receiver = []"
    by (simp_all add: listening_receiver_def init_def)
  have h: "hello_line = strip (decode_ascii_ignore (hello_line @ crlf))"
    "odd_line = strip (decode_ascii_ignore (odd_line @ crlf))"
    by code_simp+
  have c: "contains ''+TEST: RX'' hello_line" "contains ''+TEST: RX'' odd_line"
    by code_simp+
  have d: "decode_packet hello_line = Inr ''Hello''" "decode_packet odd_line = Inl ValueError"
    by code_simp+
  have t: "in_waiting (line_tick raw) = Inr (length raw)" "readline (line_tick raw) = Inr raw"
    for raw by (simp_all add: line_tick_def)
  have n: "length (hello_line @ crlf) \<noteq> 0" "length (odd_line @ crlf) \<noteq> 0"
    by (simp_all add: crlf_def)
  from receiver_decodes_packet [OF s(1) s(2) t(1) n(1) t(2) h(1) c(1)]
    receiver_decodes_packet [OF s(1) s(2) t(1) n(2) t(2) h(2) c(2)] s(3) d
  show ?thesis by simp
qed

section \<open>Extracting the temperature\<close>

lemma scan_parts_found:
  "''TEMP'' \<notin> set toks \<Longrightarrow>
   scan_parts pyfloat (toks @ ''TEMP'' # tok # rest) tv =
     (case pyfloat tok of Some v \<Rightarrow> Inr (Some v) | None \<Rightarrow> Inl ValueError)"
proof (induction toks)
  case Nil
  then show ?case by simp
next
  case (Cons a toks)
  then have "a \<noteq> ''TEMP''" and ih: "scan_parts pyfloat (toks @ ''TEMP'' # tok # rest) tv =
     (case pyfloat tok of Some v \<Rightarrow> Inr (Some v) | None \<Rightarrow> Inl ValueError)"
    by auto
  then show ?case by (cases toks) simp_all
qed

lemma scan_parts_raises: "scan_parts pyfloat parts tv = Inl e \<Longrightarrow> e = ValueError"
  by (induction pyfloat parts tv rule: scan_parts.induct) (auto split: if_splits option.splits)

lemma parse_temperature_raises:
  "parse_temperature pyfloat line tv = Inl e \<Longrightarrow> e = IndexError \<or> e = ValueError"
  by (auto simp: parse_temperature_def item_def dest: scan_parts_raises
      split: if_splits sum.splits option.splits)

lemma contains_append: "contains sub (pre @ sub @ rest)"
  by (simp add: contains_iff_sublist)

lemma parse_temperature_comma:
  assumes "\<not> contains ''TEMP,'' (pre @ ''TEMP'')" "\<not> contains ''TEMP,'' lit"
  shows "parse_temperature pyfloat (pre @ ''TEMP,'' @ lit) tv =
           (case pyfloat (strip lit) of Some v \<Rightarrow> Inr (Some v) | None \<Rightarrow> Inl ValueError)"
proof -
  have c: "contains ''TEMP,'' (pre @ ''TEMP,'' @ lit)" by (rule contains_append)
  have "split_sep ''TEMP,'' (pre @ ''TEMP,'' @ lit) = [pre, lit]"
    using assms split_sep_two [of "''TEMP,''" pre lit] by simp
  with c show ?thesis by (simp add: parse_temperature_def item_def)
qed

lemma parse_temperature_tokens:
  assumes "\<not> contains ''TEMP,'' line" "contains '':'' line" "contains ''TEMP'' line"
    "split_ws line = toks @ ''TEMP'' # tok # rest" "''TEMP'' \<notin> set toks"
  shows "parse_temperature pyfloat line tv =
           (case pyfloat tok of Some v \<Rightarrow> Inr (Some v) | None \<Rightarrow> Inl ValueError)"
  using assms scan_parts_found [OF assms(5), of pyfloat tok rest tv]
  by (simp add: parse_temperature_def)

lemma process_line_never_raises: "fst (process_line pyfloat line r s) = None"
  using parse_temperature_raises [of pyfloat line "temperature_value
    (if line = ''OK'' \<or> contains ''ERROR'' line
     then r\<lparr>response := response r @ ''RAW> '' @ line @ [CHR 0x0A], complete_response := True\<rparr>
     else r\<lparr>response := response r @ ''RAW> '' @ line @ [CHR 0x0A]\<rparr>)"]
  by (auto simp: process_line_def Let_def split: sum.splits)

lemma process_line_parse_error:
  assumes "contains ''TEMP'' line" "parse_temperature pyfloat line (temperature_value r) = Inl e"
  shows "temperature_value (fst (snd (process_line pyfloat line r s))) = temperature_value r \<and>
         effects (snd (snd (process_line pyfloat line r s))) =
           effects s @
           [Emit (StatusUpdate (device_type s) [Txt (''Response line: '' @ quoted line)]),
            Emit (StatusUpdate (device_type s) [Txt (''Found temperature data: '' @ quoted line)]),
            Emit (StatusUpdate (device_type s)
                    [Txt ''Parse error: '', StrExn e, Txt ('' in '' @ quoted line)])]"
  using assms parse_temperature_raises [OF assms(2)]
  by (auto simp: process_line_def Let_def status_update_def emit_def)

text \<open>
  C3, as stated, fails: the line \<open>TEMP 23.50\<close> has the token \<open>TEMP\<close> followed by a
  numeric token, but it has no colon, so the second format is not tried and no value
  is extracted.
\<close>

theorem colon_required_for_tokens:
  "split_ws ''TEMP 23.50'' = [''TEMP'', ''23.50''] \<and> plain_decimal ''23.50'' = Some (47/2) \<and>
   parse_temperature plain_decimal ''TEMP 23.50'' None = Inr None"
  by code_simp

text \<open>
  C3 (amended): (a) when the text after the first \<open>TEMP,\<close> of a line has no further
  \<open>TEMP,\<close> and, stripped, is a numeric literal, the extraction yields that number;
  (b) when a line has no \<open>TEMP,\<close> but has a colon, and the first token equal to \<open>TEMP\<close>
  is followed by a numeric token, the extraction yields that number; in both formats a
  malformed literal raises ValueError, which stays inside the line: the processing of a
  line raises nothing, keeps the value parsed before and emits the status
  \<open>Parse error\<close>.
\<close>

theorem temperature_extraction:
  "(\<not> contains ''TEMP,'' (pre @ ''TEMP'') \<and> \<not> contains ''TEMP,'' lit \<longrightarrow>
      parse_temperature pyfloat (pre @ ''TEMP,'' @ lit) tv =
        (case pyfloat (strip lit) of Some v \<Rightarrow> Inr (Some v) | None \<Rightarrow> Inl ValueError)) \<and>
   (\<not> contains ''TEMP,'' line \<and> contains '':'' line \<and> contains ''TEMP'' line \<and>
    split_ws line = toks @ ''TEMP'' # tok # rest \<and> ''TEMP'' \<notin> set toks \<longrightarrow>
      parse_temperature pyfloat line tv =
        (case pyfloat tok of Some v \<Rightarrow> Inr (Some v) | None \<Rightarrow> Inl ValueError)) \<and>
   fst (process_line pyfloat line r s) = None \<and>
   (contains ''TEMP'' line \<and> parse_temperature pyfloat line (temperature_value r) = Inl e \<longrightarrow>
      temperature_value (fst (snd (process_line pyfloat line r s))) = temperature_value r \<and>
      effects (snd (snd (process_line pyfloat line r s))) =
        effects s @
        [Emit (StatusUpdate (device_type s) [Txt (''Response line: '' @ quoted line)]),
         Emit (StatusUpdate (device_type s) [Txt (''Found temperature data: '' @ quoted line)]),
         Emit (StatusUpdate (device_type s)
                 [Txt ''Parse error: '', StrExn e, Txt ('' in '' @ quoted line)])])"
  using parse_temperature_comma [of pre lit pyfloat tv]
    parse_temperature_tokens [of line toks tok rest pyfloat tv]
    process_line_never_raises [of pyfloat line r s]
    process_line_parse_error [of line pyfloat r e s]
  by blast

theorem temperature_extraction_witness:
  "parse_temperature plain_decimal ''+TEST: TEMP,23.50'' None = Inr (Some (47/2)) \<and>
   parse_temperature plain_decimal ''+TEST: TEMP 23.50'' None = Inr (Some (47/2)) \<and>
   parse_temperature plain_decimal ''+TEST: TEMP,23.5x'' (Some 1) = Inl ValueError \<and>
   fst (process_line plain_decimal ''+TEST: TEMP,23.5x''
          \<lparr>response = [], complete_response = False, temperature_value = Some 1\<rparr>
          listening_receiver) = None \<and>
   temperature_value (fst (snd (process_line plain_decimal ''+TEST: TEMP,23.5x''
          \<lparr>response = [], complete_response = False, temperature_value = Some 1\<rparr>
          listening_receiver))) = Some 1"
proof -
  let ?r = "\<lparr>response = [], complete_response = False, temperature_value = Some (1::real)\<rparr>"
  have a: "\<not> contains ''TEMP,'' (''+TEST: '' @ ''TEMP'') \<and> \<not> contains ''TEMP,'' ''23.50''"
    "\<not> contains ''TEMP,'' (''+TEST: '' @ ''TEMP'') \<and> \<not> contains ''TEMP,'' ''23.5x''"
    by code_simp+
  have b: "\<not> contains ''TEMP,'' ''+TEST: TEMP 23.50'' \<and> contains '':'' ''+TEST: TEMP 23.50'' \<and>
     contains ''TEMP'' ''+TEST: TEMP 23.50'' \<and>
     split_ws ''+TEST: TEMP 23.50'' = [''+TEST:''] @ ''TEMP'' # ''23.50'' # [] \<and>
     ''TEMP'' \<notin> set [''+TEST:'']"
    by code_simp
  have v: "plain_decimal (strip ''23.50'') = Some (47/2)" "plain_decimal ''23.50'' = Some (47/2)"
    "plain_decimal (strip ''23.5x'') = None"
    by code_simp+
  have c: "contains ''TEMP'' ''+TEST: TEMP,23.5x''" by code_simp
  note t1 = temperature_extraction [where pre = "''+TEST: ''" and lit = "''23.50''"
      and pyfloat = plain_decimal and tv = None and line = "''+TEST: TEMP 23.50''"
      and toks = "[''+TEST:'']" and tok = "''23.50''" and rest = "[]"]
  note t2 = temperature_extraction [where pre = "''+TEST: ''" and lit = "''23.5x''"
      and pyfloat = plain_decimal and tv = "Some 1" and line = "''+TEST: TEMP,23.5x''"
      and r = ?r and s = listening_receiver and e = ValueError]
  from t1 a(1) b v have p1: "parse_temperature plain_decimal ''+TEST: TEMP,23.50'' None = Inr (Some (47/2))"
    and p2: "parse_temperature plain_decimal ''+TEST: TEMP 23.50'' None = Inr (Some (47/2))"
    by simp_all
  from t2 a(2) v have p3: "parse_temperature plain_decimal ''+TEST: TEMP,23.5x'' (Some 1) = Inl ValueError"
    by simp
  from t2 c p3 have p4: "fst (process_line plain_decimal ''+TEST: TEMP,23.5x'' ?r listening_receiver) = None"
    and p5: "temperature_value (fst (snd (process_line plain_decimal ''+TEST: TEMP,23.5x'' ?r
          listening_receiver))) = Some 1"
    by simp_all
  from p1 p2 p3 p4 p5 show ?thesis by simp
qed

section \<open>The result of reading the temperature\<close>

lemma scan_parts_from_none:
  "scan_parts pyfloat parts tv =
     (case scan_parts pyfloat parts None of Inr None \<Rightarrow> Inr tv | other \<Rightarrow> other)"
  by (induction pyfloat parts tv rule: scan_parts.induct) (auto split: option.splits)

lemma parse_temperature_from_none:
  "parse_temperature pyfloat line tv =
     (case parse_temperature pyfloat line None of Inr None \<Rightarrow> Inr tv | other \<Rightarrow> other)"
proof (cases "contains ''TEMP,'' line")
  case True
  then show ?thesis
    by (auto simp: parse_temperature_def split: sum.splits option.splits)
next
  case False
  then show ?thesis
    using scan_parts_from_none [of pyfloat "split_ws line" tv]
    by (auto simp: parse_temperature_def)
qed

lemma process_line_result:
  assumes "process_line pyfloat line r s = (x, r', s')"
  shows "x = None \<and>
         temperature_value r' =
           (case line_value pyfloat line of Some v \<Rightarrow> Some v | None \<Rightarrow> temperature_value r) \<and>
         complete_response r' = (complete_response r \<or> completes line) \<and>
         device_type s' = device_type s \<and> effects s' \<noteq> []"
proof -
  have x: "x = None" using process_line_never_raises [of pyfloat line r s] assms by simp
  show ?thesis
  proof (cases "contains ''TEMP'' line")
    case False
    with assms x show ?thesis
      by (auto simp: process_line_def Let_def line_value_def completes_def status_update_def
          emit_def split: if_splits)
  next
    case True
    show ?thesis
    proof (cases "parse_temperature pyfloat line None")
      case (Inl e)
      then have "parse_temperature pyfloat line tv = Inl e" for tv
        using parse_temperature_from_none [of pyfloat line tv] by simp
      with assms x True Inl parse_temperature_raises [OF Inl] show ?thesis
        by (auto simp: process_line_def Let_def line_value_def completes_def status_update_def
            emit_def split: if_splits)
    next
      case (Inr v)
      then have "parse_temperature pyfloat line tv = (case v of None \<Rightarrow> Inr tv | Some w \<Rightarrow> Inr (Some w))" for tv
        using parse_temperature_from_none [of pyfloat line tv] by (simp split: option.splits)
      with assms x True Inr show ?thesis
        by (auto simp: process_line_def Let_def line_value_def completes_def status_update_def
            emit_def split: option.splits if_splits)
    qed
  qed
qed

lemma latest_last_parsed:
  "latest pyfloat tv ls =
     (case List.map_filter (line_value pyfloat) ls of [] \<Rightarrow> tv | v # vs \<Rightarrow> Some (last (v # vs)))"
proof (induction ls arbitrary: tv)
  case Nil
  then show ?case by (simp add: latest_def)
next
  case (Cons l ls)
  have "latest pyfloat tv (l # ls) =
          latest pyfloat (case line_value pyfloat l of Some v \<Rightarrow> Some v | None \<Rightarrow> tv) ls"
    by (simp add: latest_def)
  with Cons.IH show ?case
    by (cases "line_value pyfloat l") (auto simp: List.map_filter_simps split: list.splits)
qed

lemma read_loop_result:
  assumes "list_all poll_ok ps" "read_loop pyfloat start ps r s = Some (x, r', s')"
  shows "x = None \<and>
         temperature_value r' =
           latest pyfloat (temperature_value r) (lines_seen start (complete_response r) ps) \<and>
         complete_response r' =
           (complete_response r \<or> list_ex completes (lines_seen start (complete_response r) ps)) \<and>
         device_type s' = device_type s"
  using assms
proof (induction ps arbitrary: r s)
  case Nil
  then show ?case by simp
next
  case (Cons p ps)
  from Cons.prems(1) have ok: "poll_ok p" and oks: "list_all poll_ok ps" by simp_all
  show ?case
  proof (cases "clock p - start < 5 \<and> \<not> complete_response r")
    case False
    with Cons.prems(2) show ?thesis by (auto simp: latest_def)
  next
    case True
    then have nc: "\<not> complete_response r" by simp
    from ok obtain n where n: "bytes_waiting p = Inr n"
      by (cases "bytes_waiting p") (auto simp: poll_ok_def)
    show ?thesis
    proof (cases "n = 0")
      case z: True
      from Cons.prems(2) True n z
      have "read_loop pyfloat start ps r (sleep (1/10) s) = Some (x, r', s')" by simp
      from Cons.IH [OF oks this] True n z show ?thesis by (simp add: sleep_def)
    next
      case nz: False
      with ok n obtain raw where raw: "line_read p = Inr raw"
        by (cases "line_read p") (auto simp: poll_ok_def)
      let ?line = "strip (decode_ascii_ignore raw)"
      show ?thesis
      proof (cases "?line = []")
        case e: True
        from Cons.prems(2) True n nz raw e
        have "read_loop pyfloat start ps r s = Some (x, r', s')" by simp
        from Cons.IH [OF oks this] True n nz raw e show ?thesis by simp
      next
        case ne: False
        obtain x1 r1 s1 where pl: "process_line pyfloat ?line r s = (x1, r1, s1)"
          by (cases "process_line pyfloat ?line r s") auto
        note p1 = process_line_result [OF pl]
        from Cons.prems(2) True n nz raw ne pl p1
        have "read_loop pyfloat start ps r1 (sleep (1/10) s1) = Some (x, r', s')" by simp
        from Cons.IH [OF oks this] p1 nc
        have "x = None" "device_type s' = device_type s"
          "temperature_value r' =
             latest pyfloat (case line_value pyfloat ?line of Some v \<Rightarrow> Some v
                             | None \<Rightarrow> temperature_value r)
               (lines_seen start (completes ?line) ps)"
          "complete_response r' =
             (completes ?line \<or> list_ex completes (lines_seen start (completes ?line) ps))"
          by (simp_all add: sleep_def)
        moreover have "lines_seen start (complete_response r) (p # ps) =
                         ?line # lines_seen start (completes ?line) ps"
          using True n nz raw ne by (simp add: Let_def)
        ultimately show ?thesis using nc by (simp add: latest_def)
      qed
    qed
  qed
qed

lemma read_loop_returns:
  "\<exists>p\<in>set ps. 5 \<le> clock p - start \<Longrightarrow> read_loop pyfloat start ps r s \<noteq> None"
proof (induction ps arbitrary: r s)
  case Nil
  then show ?case by simp
next
  case (Cons p ps)
  show ?case
  proof (cases "clock p - start < 5 \<and> \<not> complete_response r")
    case False
    then show ?thesis by auto
  next
    case True
    with Cons.prems have "\<exists>p\<in>set ps. 5 \<le> clock p - start" by auto
    note ih = Cons.IH [OF this]
    show ?thesis
    proof (cases "bytes_waiting p")
      case (Inl e)
      with True show ?thesis by simp
    next
      case (Inr n)
      show ?thesis
      proof (cases "line_read p")
        case (Inl e)
        with True Inr ih show ?thesis by simp
      next
        case raw: (Inr raw)
        obtain x1 r1 s1 where
          "process_line pyfloat (strip (decode_ascii_ignore raw)) r s = (x1, r1, s1)"
          by (cases "process_line pyfloat (strip (decode_ascii_ignore raw)) r s") auto
        with True Inr raw ih show ?thesis by (cases x1) (simp_all add: Let_def)
      qed
    qed
  qed
qed

lemma send_query_ok:
  assumes "serial s = Some True" "reset_input env = None" "reset_output env = None"
    "temp_write env = None"
  shows "fst (send_query env s) = None \<and> device_type (snd (send_query env s)) = device_type s"
  using assms
  by (simp add: send_query_def and_then_def serial_reset_def serial_write_def status_update_def
      emit_def sleep_def)

lemma report_result:
  "fst (report r s) = temperature_value r \<and>
   (temperature_value r = None \<longrightarrow>
      last (effects (snd (report r s))) =
        Emit (StatusUpdate (device_type s)
                [Txt (if complete_response r then ''Temperature data not found in response''
                      else ''Timeout waiting for complete response'')]))"
  by (simp add: report_def Let_def status_update_def emit_def split: option.splits)

text \<open>
  C4: on an open connection whose port raises nothing, \<open>read_temperature\<close> returns
  once the deadline is reached, and whenever it returns, its result is the last
  successfully parsed value among the lines it took in (\<open>None\<close> when no line yielded a
  value: lines whose extraction fails change nothing); when the result is \<open>None\<close>, the
  last status is \<open>Temperature data not found in response\<close> if a line completed the
  response and \<open>Timeout waiting for complete response\<close> if none did.
\<close>

theorem read_temperature_last_parsed:
  assumes "serial s = Some True" "reset_input env = None" "reset_output env = None"
    "temp_write env = None" "list_all poll_ok (polls env)"
  shows "(list_ex (\<lambda>p. 5 \<le> clock p - start_time env) (polls env) \<longrightarrow>
            read_temperature pyfloat env s \<noteq> None) \<and>
         (\<forall>v s'. read_temperature pyfloat env s = Some (v, s') \<longrightarrow>
            v = last_parsed pyfloat (lines_seen (start_time env) False (polls env)) \<and>
            (v = None \<longrightarrow>
               last (effects s') =
                 Emit (StatusUpdate (device_type s)
                   [Txt (if list_ex completes (lines_seen (start_time env) False (polls env))
                         then ''Temperature data not found in response''
                         else ''Timeout waiting for complete response'')])))"
proof -
  let ?r0 = "\<lparr>response = [], complete_response = False, temperature_value = None\<rparr> :: 'a reading"
  let ?ls = "lines_seen (start_time env) False (polls env)"
  obtain s1 where q: "send_query env s = (None, s1)" and d1: "device_type s1 = device_type s"
    using send_query_ok [OF assms(1-4)] by (cases "send_query env s") auto
  have rt: "read_temperature pyfloat env s =
              (case read_loop pyfloat (start_time env) (polls env) ?r0 s1 of
                 None \<Rightarrow> None
               | Some (Some e, r, s2) \<Rightarrow>
                   Some (None, status_update [Txt ''Temperature reading error: '', StrExn e] s2)
               | Some (None, r, s2) \<Rightarrow> Some (report r s2))"
    using assms(1) q by (simp add: read_temperature_def)
  have a: "read_temperature pyfloat env s \<noteq> None"
    if "list_ex (\<lambda>p. 5 \<le> clock p - start_time env) (polls env)"
  proof -
    from that have "\<exists>p\<in>set (polls env). 5 \<le> clock p - start_time env"
      by (simp add: list_ex_iff)
    from read_loop_returns [OF this, of pyfloat ?r0 s1] rt show ?thesis
      by (auto split: option.splits)
  qed
  have b: "v = last_parsed pyfloat ?ls \<and>
            (v = None \<longrightarrow>
               last (effects s') =
                 Emit (StatusUpdate (device_type s)
                   [Txt (if list_ex completes ?ls
                         then ''Temperature data not found in response''
                         else ''Timeout waiting for complete response'')]))"
    if h: "read_temperature pyfloat env s = Some (v, s')" for v s'
  proof -
    from h rt obtain x r s2 where
      l: "read_loop pyfloat (start_time env) (polls env) ?r0 s1 = Some (x, r, s2)"
      by (auto split: option.splits)
    from read_loop_result [OF assms(5) l] d1
    have x: "x = None" and tv: "temperature_value r = latest pyfloat None ?ls"
      and c: "complete_response r = list_ex completes ?ls" and d2: "device_type s2 = device_type s"
      by simp_all
    from h rt l x have rep: "report r s2 = (v, s')" by simp
    have lp: "latest pyfloat None ?ls = last_parsed pyfloat ?ls"
      by (simp add: latest_last_parsed last_parsed_def)
    from report_result [of r s2] rep tv c d2 lp show ?thesis by simp
  qed
  from a b show ?thesis by blast
qed

theorem read_temperature_last_parsed_witness:
  "list_all poll_ok reply_polls \<and> list_all poll_ok silent_polls \<and>
   list_ex (\<lambda>p. 5 \<le> clock p - 0) reply_polls \<and> list_ex (\<lambda>p. 5 \<le> clock p - 0) silent_polls \<and>
   lines_seen 0 False reply_polls = [''+TEST: TEMP,23.50'', ''+TEST: TEMP,2x'', ''OK''] \<and>
   map_option fst (read_temperature plain_decimal (temp_exchange reply_polls) listening_receiver) =
     Some (Some (47/2)) \<and>
   map_option fst (read_temperature plain_decimal (temp_exchange silent_polls) listening_receiver) =
     Some None \<and>
   map_option (\<lambda>r. last (effects (snd r)))
       (read_temperature plain_decimal (temp_exchange silent_polls) listening_receiver) =
     Some (Emit (StatusUpdate ''Receiver'' [Txt ''Timeout waiting for complete response'']))"
proof -
  have s: "serial listening_receiver = Some True" "device_type listening_receiver = ''Receiver''"
    by (simp_all add: listening_receiver_def init_def)
  have e: "reset_input (temp_exchange ps) = None" "reset_output (temp_exchange ps) = None"
    "temp_write (temp_exchange ps) = None" "polls (temp_exchange ps) = ps"
    "start_time (temp_exchange ps) = 0" for ps
    by (simp_all add: temp_exchange_def)
  have ok: "list_all poll_ok reply_polls" "list_all poll_ok silent_polls"
    by (simp_all add: reply_polls_def silent_polls_def poll_line_def poll_ok_def)
  have late: "list_ex (\<lambda>p. 5 \<le> clock p - 0) reply_polls"
    "list_ex (\<lambda>p. 5 \<le> clock p - 0) silent_polls"
    by (simp_all add: reply_polls_def silent_polls_def poll_line_def)
  have ls: "lines_seen 0 False silent_polls = []"
    by (simp add: silent_polls_def poll_line_def)
  have lr: "lines_seen 0 False reply_polls = [''+TEST: TEMP,23.50'', ''+TEST: TEMP,2x'', ''OK'']"
    by code_simp
  have lp: "last_parsed plain_decimal [''+TEST: TEMP,23.50'', ''+TEST: TEMP,2x'', ''OK''] =
              Some (47/2)"
    by code_simp
  note t1 = read_temperature_last_parsed [where s = listening_receiver
      and env = "temp_exchange reply_polls" and pyfloat = plain_decimal,
      unfolded e, OF s(1) refl refl refl ok(1)]
  note t2 = read_temperature_last_parsed [where s = listening_receiver
      and env = "temp_exchange silent_polls" and pyfloat = plain_decimal,
      unfolded e, OF s(1) refl refl refl ok(2)]
  from t1 late(1) obtain v1 s1 where r1: "read_temperature plain_decimal
      (temp_exchange reply_polls) listening_receiver = Some (v1, s1)"
    by (cases "read_temperature plain_decimal (temp_exchange reply_polls) listening_receiver") auto
  with t1 lr lp have p1: "v1 = Some (47/2)" by simp
  from t2 late(2) obtain v2 s2 where r2: "read_temperature plain_decimal
      (temp_exchange silent_polls) listening_receiver = Some (v2, s2)"
    by (cases "read_temperature plain_decimal (temp_exchange silent_polls) listening_receiver") auto
  with t2 ls s(2) have "v2 = None"
    "last (effects s2) = Emit (StatusUpdate ''Receiver'' [Txt ''Timeout waiting for complete response''])"
    by (simp_all add: last_parsed_def List.map_filter_simps)
  with r1 p1 r2 ok late lr show ?thesis by simp
qed

end
